theory Spec2Isabelle
  imports Complex_Main
begin

section \<open>Caption pipeline of subtitle-ninja: word grouping, style presets, ASS markup\<close>

text \<open>
  The development embeds three source files:
  \<^item> \<^verbatim>\<open>workflows/process_video.py\<close>: \<^verbatim>\<open>VideoProcessor.create_word_groups\<close> and
    \<^verbatim>\<open>VideoProcessor.seconds_to_srt_time\<close>;
  \<^item> \<^verbatim>\<open>workflows/style_config.py\<close>: \<^verbatim>\<open>StyleConfig\<close>, \<^verbatim>\<open>StylePresets\<close> and the two colour
    conversions;
  \<^item> \<^verbatim>\<open>workflows/ass_renderer.py\<close>: \<^verbatim>\<open>ASSRenderer\<close>.

  Python values are modelled as follows. A \<^verbatim>\<open>str\<close> is a \<^typ>\<open>string\<close>, an \<^verbatim>\<open>int\<close> is an
  \<^typ>\<open>int\<close>. A \<^verbatim>\<open>float\<close> is the \<^typ>\<open>real\<close> number it denotes, and every float operation
  rounds its exact result to binary64 (\<open>b64\<close> below); infinities, NaN and the sign of zero
  are outside the model. The word and segment dictionaries become records; the two segment
  keys the renderer reads with \<^verbatim>\<open>dict.get\<close> are optional fields (\<open>None\<close> is an absent key).
\<close>

subsection \<open>Python primitives\<close>

text \<open>\<^verbatim>\<open>int(x)\<close> on a float truncates toward zero.\<close>

definition py_int :: "real \<Rightarrow> int" where
  "py_int x = (if 0 \<le> x then \<lfloor>x\<rfloor> else \<lceil>x\<rceil>)"

text \<open>
  Binary64 arithmetic. \<open>b64 x\<close> is the binary64 number nearest to \<open>x\<close>, ties to the even
  significand: \<open>x\<close> is scaled by the unit in the last place of its binade (53 significant
  bits) and rounded to an integer. The exponent range is not bounded, so overflow to
  infinity and gradual underflow are not modelled. A float literal \<^verbatim>\<open>0.045\<close> is
  \<open>b64 0.045\<close>, and an \<^verbatim>\<open>int\<close> operand of a float operation is converted by \<open>float_of_int\<close>.
\<close>

definition round_half_even :: "real \<Rightarrow> int" where
  "round_half_even y =
     (let f = \<lfloor>y\<rfloor>; r = y - of_int f
      in if r < 1 / 2 then f else if 1 / 2 < r then f + 1 else if even f then f else f + 1)"

definition b64_ulp :: "real \<Rightarrow> real" where
  "b64_ulp x = 2 powi (\<lfloor>log 2 \<bar>x\<bar>\<rfloor> - 52)"

definition b64 :: "real \<Rightarrow> real" where
  "b64 x = (if x = 0 then 0 else b64_ulp x * of_int (round_half_even (x / b64_ulp x)))"

definition float_of_int :: "int \<Rightarrow> real" where
  "float_of_int n = b64 (of_int n)"

text \<open>
  \<^verbatim>\<open>x % y\<close> and \<^verbatim>\<open>x // y\<close> on floats, as CPython computes them (\<^verbatim>\<open>float_rem\<close> and
  \<^verbatim>\<open>_float_div_mod\<close>): the C function \<^verbatim>\<open>fmod\<close> is exact and has the sign of \<open>x\<close>; the
  remainder is moved to the sign of the divisor by a rounded addition; the quotient
  \<^verbatim>\<open>(x - mod) / y\<close> is computed in binary64 and snapped to the nearest integral value.
  Every call site divides by a non-zero literal.
\<close>

definition c_fmod :: "real \<Rightarrow> real \<Rightarrow> real" where
  "c_fmod x y = x - y * of_int (py_int (x / y))"

definition py_mod :: "real \<Rightarrow> real \<Rightarrow> real" where
  "py_mod x y =
     (let m = c_fmod x y
      in if m \<noteq> 0 \<and> ((y < 0) \<noteq> (m < 0)) then b64 (m + y) else m)"

definition py_floordiv :: "real \<Rightarrow> real \<Rightarrow> real" where
  "py_floordiv x y =
     (let m = c_fmod x y;
          d0 = b64 (b64 (x - m) / y);
          d = (if m \<noteq> 0 \<and> ((y < 0) \<noteq> (m < 0)) then b64 (d0 - 1) else d0)
      in if d \<noteq> 0 then
           (let f = of_int \<lfloor>d\<rfloor> in if 1 / 2 < b64 (d - f) then b64 (f + 1) else f)
         else 0)"

text \<open>\<^verbatim>\<open>sep.join(parts)\<close>.\<close>

fun join :: "'a list \<Rightarrow> 'a list list \<Rightarrow> 'a list" where
  "join sep [] = []"
| "join sep [x] = x"
| "join sep (x # y # ys) = x @ sep @ join sep (y # ys)"

text \<open>\<^verbatim>\<open>s.startswith(p)\<close>.\<close>

definition startswith :: "'a list \<Rightarrow> 'a list \<Rightarrow> bool" where
  "startswith s p = (take (length p) s = p)"

text \<open>
  \<^verbatim>\<open>str(n)\<close> for an int, and the format specification \<^verbatim>\<open>{n:0wd}\<close>. \<open>digit_char\<close> is only
  applied to a digit \<open>d < 10\<close>.
\<close>

definition digit_char :: "nat \<Rightarrow> char" where
  "digit_char d = ''0123456789'' ! d"

fun str_nat :: "nat \<Rightarrow> string" where
  "str_nat n = (if n < 10 then [digit_char n] else str_nat (n div 10) @ [digit_char (n mod 10)])"

declare str_nat.simps [simp del]

definition str_int :: "int \<Rightarrow> string" where
  "str_int i = (if i < 0 then CHR ''-'' # str_nat (nat (- i)) else str_nat (nat i))"

definition zfill :: "nat \<Rightarrow> string \<Rightarrow> string" where
  "zfill w s = replicate (w - length s) CHR ''0'' @ s"

definition fmt_0d :: "nat \<Rightarrow> int \<Rightarrow> string" where
  "fmt_0d w i =
     (if i < 0 then CHR ''-'' # zfill (w - 1) (str_nat (nat (- i))) else zfill w (str_nat (nat i)))"

subsection \<open>Word Grouper (\<^verbatim>\<open>VideoProcessor.create_word_groups\<close>)\<close>

text \<open>
  A transcribed word is the dictionary \<^verbatim>\<open>{"start": .., "end": .., "text": ..}\<close> built in
  \<^verbatim>\<open>transcribe_audio\<close>; a display segment is the dictionary appended by
  \<^verbatim>\<open>create_word_groups\<close>.
\<close>

record word =
  word_start :: real
  word_end :: real
  word_text :: string

record segment =
  seg_start :: real
  seg_end :: real
  seg_words :: "string list option"
  current_word_index :: int
  current_word :: string
  display_text :: "string option"

text \<open>
  The inner loop \<^verbatim>\<open>for j in range(words_per_group)\<close> appends the text of
  \<^verbatim>\<open>words[i + j]\<close> while that index exists. \<^verbatim>\<open>range(n)\<close> is empty for \<^verbatim>\<open>n <= 0\<close>.
\<close>

definition group_words_at :: "word list \<Rightarrow> int \<Rightarrow> nat \<Rightarrow> string list" where
  "group_words_at words words_per_group i =
     fold (\<lambda>j group_words.
             if i + j < length words then group_words @ [word_text (words ! (i + j))]
             else group_words)
          [0..<nat words_per_group] []"

text \<open>The body of the outer loop for one index \<open>i < length words\<close>.\<close>

definition word_group :: "word list \<Rightarrow> int \<Rightarrow> nat \<Rightarrow> segment" where
  "word_group words words_per_group i =
     (let group_start = word_start (words ! i);
          group_end = (if i + 1 < length words then word_start (words ! (i + 1))
                       else word_end (words ! i));
          group_words = group_words_at words words_per_group i
      in \<lparr> seg_start = group_start,
           seg_end = group_end,
           seg_words = Some group_words,
           current_word_index = 0,
           current_word = (if group_words \<noteq> [] then group_words ! 0 else ''''),
           display_text = Some (join '' '' group_words) \<rparr>)"

definition create_word_groups :: "word list \<Rightarrow> int \<Rightarrow> segment list" where
  "create_word_groups words words_per_group =
     (if words = [] then []
      else fold (\<lambda>i grouped_segments. grouped_segments @ [word_group words words_per_group i])
                [0..<length words] [])"

text \<open>The call in \<^verbatim>\<open>transcribe_audio\<close> leaves \<^verbatim>\<open>words_per_group\<close> at its default 3.\<close>

definition create_word_groups_default :: "word list \<Rightarrow> segment list" where
  "create_word_groups_default words = create_word_groups words 3"

subsection \<open>Style Model (\<^verbatim>\<open>style_config.py\<close>)\<close>

text \<open>The dataclass \<^verbatim>\<open>StyleConfig\<close>, field by field, and its default values.\<close>

record StyleConfig =
  font_family :: string
  font_size_ratio :: real
  font_weight :: string
  base_color :: string
  highlight_color :: string
  outline_color :: string
  highlight_style :: string
  outline_width :: int
  glow_enabled :: bool
  glow_intensity :: string
  words_per_line :: int
  position :: string
  alignment :: int
  margin_ratio :: real
  background_enabled :: bool
  background_color :: string
  background_opacity :: int

definition StyleConfig_defaults :: StyleConfig where
  "StyleConfig_defaults =
     \<lparr> font_family = ''Arial'', font_size_ratio = b64 0.05, font_weight = ''bold'',
       base_color = ''&Hffffff'', highlight_color = ''&H00d7ff'', outline_color = ''&H000000'',
       highlight_style = ''color_change'', outline_width = 2, glow_enabled = False,
       glow_intensity = ''none'', words_per_line = 3, position = ''bottom'', alignment = 2,
       margin_ratio = b64 0.08, background_enabled = False, background_color = ''&H80000000'',
       background_opacity = 80 \<rparr>"

text \<open>
  The dictionary literal of \<^verbatim>\<open>StylePresets.get_preset\<close>, in source order. Each entry is the
  keyword constructor call of the source: the named fields over the defaults.
\<close>

definition presets :: "(string \<times> StyleConfig) list" where
  "presets =
     [(''instagram_classic'',
         StyleConfig_defaults
           \<lparr> font_family := ''Arial'', font_size_ratio := b64 0.05, base_color := ''&Hffffff'',
             highlight_color := ''&H00d7ff'', outline_color := ''&H000000'',
             highlight_style := ''color_change'', outline_width := 2, words_per_line := 3,
             position := ''bottom'', margin_ratio := b64 0.08 \<rparr>),
      (''tiktok_viral'',
         StyleConfig_defaults
           \<lparr> font_family := ''Arial'', font_size_ratio := b64 0.055, base_color := ''&Hffffff'',
             highlight_color := ''&Hffff00'', outline_color := ''&H000000'',
             highlight_style := ''glow_pulse'', outline_width := 1, glow_enabled := True,
             glow_intensity := ''strong'', words_per_line := 4, position := ''bottom'',
             margin_ratio := b64 0.07 \<rparr>),
      (''youtube_professional'',
         StyleConfig_defaults
           \<lparr> font_family := ''Arial'', font_size_ratio := b64 0.045, base_color := ''&Hffffff'',
             highlight_color := ''&H0000ff'', outline_color := ''&H000000'',
             highlight_style := ''background_highlight'', outline_width := 2,
             background_enabled := True, background_color := ''&H80000000'',
             background_opacity := 70, words_per_line := 3, position := ''bottom'',
             margin_ratio := b64 0.09 \<rparr>),
      (''minimalist'',
         StyleConfig_defaults
           \<lparr> font_family := ''Arial'', font_size_ratio := b64 0.04, base_color := ''&Hffffff'',
             highlight_color := ''&He2904a'', outline_color := ''&H404040'',
             highlight_style := ''scale_up'', outline_width := 1, words_per_line := 3,
             position := ''center'', margin_ratio := b64 0.1 \<rparr>),
      (''gaming'',
         StyleConfig_defaults
           \<lparr> font_family := ''Arial'', font_size_ratio := b64 0.06, base_color := ''&Hffffff'',
             highlight_color := ''&H00ff00'', outline_color := ''&H000000'',
             highlight_style := ''glow_pulse'', outline_width := 3, glow_enabled := True,
             glow_intensity := ''strong'', words_per_line := 2, position := ''bottom'',
             margin_ratio := b64 0.06 \<rparr>)]"

text \<open>
  \<^verbatim>\<open>presets.get(preset_name, presets["instagram_classic"])\<close>: the default argument is
  evaluated first and raises \<^verbatim>\<open>KeyError\<close> when its key is missing.
\<close>

datatype py_error = KeyError string

definition get_preset :: "string \<Rightarrow> py_error + StyleConfig" where
  "get_preset preset_name =
     (case map_of presets ''instagram_classic'' of
        None \<Rightarrow> Inl (KeyError ''instagram_classic'')
      | Some fallback \<Rightarrow>
          Inr (case map_of presets preset_name of Some style \<Rightarrow> style | None \<Rightarrow> fallback))"

definition list_presets :: "string list" where
  "list_presets =
     [''instagram_classic'', ''tiktok_viral'', ''youtube_professional'', ''minimalist'', ''gaming'']"

text \<open>
  Slices \<^verbatim>\<open>s[a:b]\<close> with literal bounds \<open>0 \<le> a \<le> b\<close>, and \<^verbatim>\<open>str.upper\<close> on ASCII text (a
  character outside \<^verbatim>\<open>a..z\<close> is left as it is).
\<close>

definition py_slice :: "'a list \<Rightarrow> nat \<Rightarrow> nat \<Rightarrow> 'a list" where
  "py_slice s a b = take (b - a) (drop a s)"

definition upper_char :: "char \<Rightarrow> char" where
  "upper_char c =
     (case map_of (zip ''abcdefghijklmnopqrstuvwxyz'' ''ABCDEFGHIJKLMNOPQRSTUVWXYZ'') c of
        Some u \<Rightarrow> u
      | None \<Rightarrow> c)"

definition py_upper :: "string \<Rightarrow> string" where
  "py_upper s = map upper_char s"

definition convert_hex_to_ass_color :: "string \<Rightarrow> string" where
  "convert_hex_to_ass_color hex_color0 =
     (let hex_color = (if startswith hex_color0 ''#'' then drop 1 hex_color0 else hex_color0)
      in if length hex_color = 6 then
           (let r = py_slice hex_color 0 2;
                g = py_slice hex_color 2 4;
                b = py_slice hex_color 4 6
            in ''&H'' @ b @ g @ r)
         else ''&Hffffff'')"

definition convert_ass_to_hex_color :: "string \<Rightarrow> string" where
  "convert_ass_to_hex_color ass_color =
     (if startswith ass_color ''&H'' \<and> 8 \<le> length ass_color then
        (let color_part = py_slice ass_color 2 8;
             b = py_slice color_part 0 2;
             g = py_slice color_part 2 4;
             r = py_slice color_part 4 6
         in py_upper (''#'' @ r @ g @ b))
      else ''#FFFFFF'')"

text \<open>
  The specification's notion of a well-formed colour: six hexadecimal digits of either
  case, after one optional leading \<^verbatim>\<open>#\<close>.
\<close>

definition is_hex_digit :: "char \<Rightarrow> bool" where
  "is_hex_digit c = (c \<in> set ''0123456789abcdefABCDEF'')"

definition strip_hash :: "string \<Rightarrow> string" where
  "strip_hash s = (case s of [] \<Rightarrow> [] | c # t \<Rightarrow> if c = CHR ''#'' then t else s)"

definition well_formed_hex6 :: "string \<Rightarrow> bool" where
  "well_formed_hex6 s = (length (strip_hash s) = 6 \<and> list_all is_hex_digit (strip_hash s))"

subsection \<open>Subtitle Compiler (\<^verbatim>\<open>ass_renderer.py\<close>)\<close>

text \<open>
  The line feed, and a backslash in front of an override tag: the Python literal
  \<^verbatim>\<open>"\\c"\<close> is \<open>bs ''c''\<close>.
\<close>

definition newline :: char where
  "newline = CHR 0x0A"

definition bs :: "string \<Rightarrow> string" where
  "bs tag = CHR 0x5C # tag"

text \<open>
  A triple-quoted literal whose lines all end in a line feed is the concatenation of its
  lines, each followed by the line feed. A line of comma-separated values is the
  \<^verbatim>\<open>","\<close>-join of its values.
\<close>

definition unlines :: "string list \<Rightarrow> string" where
  "unlines ls = concat (map (\<lambda>l. l @ [newline]) ls)"

definition seconds_to_ass_time :: "real \<Rightarrow> string" where
  "seconds_to_ass_time seconds =
     (let hours = py_int (py_floordiv seconds 3600);
          minutes = py_int (py_floordiv (py_mod seconds 3600) 60);
          secs = py_int (py_mod seconds 60);
          centisecs = py_int (b64 (py_mod seconds 1 * 100))
      in str_int hours @ '':'' @ fmt_0d 2 minutes @ '':'' @ fmt_0d 2 secs @ ''.''
           @ fmt_0d 2 centisecs)"

text \<open>\<^verbatim>\<open>VideoProcessor.seconds_to_srt_time\<close> of \<^verbatim>\<open>process_video.py\<close>.\<close>

definition seconds_to_srt_time :: "real \<Rightarrow> string" where
  "seconds_to_srt_time seconds =
     (let hours = py_int (py_floordiv seconds 3600);
          minutes = py_int (py_floordiv (py_mod seconds 3600) 60);
          secs = py_int (py_mod seconds 60);
          millisecs = py_int (b64 (py_mod seconds 1 * 1000))
      in fmt_0d 2 hours @ '':'' @ fmt_0d 2 minutes @ '':'' @ fmt_0d 2 secs @ '',''
           @ fmt_0d 3 millisecs)"

definition get_highlight_scale :: "StyleConfig \<Rightarrow> int" where
  "get_highlight_scale style = (if highlight_style style = ''scale_up'' then 120 else 100)"

text \<open>
  The values of the three \<^verbatim>\<open>Style:\<close> lines, in the order of the \<^verbatim>\<open>Format:\<close> line: the
  \<^verbatim>\<open>Default\<close> and \<^verbatim>\<open>Highlight\<close> records of \<^verbatim>\<open>_generate_header\<close> and the \<^verbatim>\<open>Default\<close> record
  of \<^verbatim>\<open>_generate_empty_ass_file\<close>.
\<close>

definition default_style_values :: "int \<Rightarrow> int \<Rightarrow> int \<Rightarrow> StyleConfig \<Rightarrow> string list" where
  "default_style_values font_size margin_side margin_bottom style =
     [''Default'', font_family style, str_int font_size, base_color style,
      base_color style, outline_color style,
      (if background_enabled style then background_color style else ''&H80000000''),
      ''1'', ''0'', ''0'', ''0'', ''100'', ''100'', ''0'', ''0'', ''1'',
      str_int (outline_width style), ''0'', str_int (alignment style),
      str_int margin_side, str_int margin_side, str_int margin_bottom, ''1'']"

definition highlight_style_values :: "int \<Rightarrow> int \<Rightarrow> int \<Rightarrow> StyleConfig \<Rightarrow> string list" where
  "highlight_style_values font_size margin_side margin_bottom style =
     [''Highlight'', font_family style, str_int font_size, highlight_color style,
      highlight_color style, outline_color style,
      (if background_enabled style then background_color style else ''&H80000000''),
      ''1'', ''0'', ''0'', ''0'', str_int (get_highlight_scale style),
      str_int (get_highlight_scale style), ''0'', ''0'', ''1'',
      str_int (outline_width style), ''0'', str_int (alignment style),
      str_int margin_side, str_int margin_side, str_int margin_bottom, ''1'']"

definition fallback_style_values :: "int \<Rightarrow> int \<Rightarrow> StyleConfig \<Rightarrow> string list" where
  "fallback_style_values font_size margin_bottom style =
     [''Default'', font_family style, str_int font_size, base_color style,
      base_color style, outline_color style, ''&H80000000'',
      ''1'', ''0'', ''0'', ''0'', ''100'', ''100'', ''0'', ''0'', ''1'', ''2'', ''0'', ''2'',
      ''20'', ''20'', str_int margin_bottom, ''1'']"

text \<open>
  The literal returned by \<^verbatim>\<open>_generate_header\<close>, line by line; the function itself ends every
  line, the last one included, with a line feed.
\<close>

definition header_lines :: "int \<Rightarrow> int \<Rightarrow> int \<Rightarrow> StyleConfig \<Rightarrow> string list" where
  "header_lines font_size margin_side margin_bottom style =
     [''[Script Info]'',
      ''Title: Subtitle Ninja - '' @ font_family style,
      ''ScriptType: v4.00+'',
      '''',
      ''[V4+ Styles]'',
      ''Format: Name, Fontname, Fontsize, PrimaryColour, SecondaryColour, OutlineColour, BackColour, Bold, Italic, Underline, StrikeOut, ScaleX, ScaleY, Spacing, Angle, BorderStyle, Outline, Shadow, Alignment, MarginL, MarginR, MarginV, Encoding'',
      ''Style: '' @ join '','' (default_style_values font_size margin_side margin_bottom style),
      ''Style: '' @ join '','' (highlight_style_values font_size margin_side margin_bottom style),
      '''',
      ''[Events]'',
      ''Format: Layer, Start, End, Style, Name, MarginL, MarginR, MarginV, Effect, Text'']"

definition generate_header :: "int \<Rightarrow> int \<Rightarrow> int \<Rightarrow> StyleConfig \<Rightarrow> string" where
  "generate_header font_size margin_side margin_bottom style =
     unlines (header_lines font_size margin_side margin_bottom style)"

text \<open>The branch \<^verbatim>\<open>if i == 0\<close> of the loop in \<^verbatim>\<open>_create_styled_text\<close>.\<close>

definition highlight_word :: "StyleConfig \<Rightarrow> string \<Rightarrow> string" where
  "highlight_word style word =
     (if highlight_style style = ''color_change'' then
        ''{'' @ bs ''c'' @ highlight_color style @ ''&}'' @ word
          @ ''{'' @ bs ''c'' @ base_color style @ ''&}''
      else if highlight_style style = ''scale_up'' then
        (let scale = get_highlight_scale style
         in ''{'' @ bs ''fscx'' @ str_int scale @ bs ''fscy'' @ str_int scale
              @ bs ''c'' @ highlight_color style @ ''&}'' @ word
              @ ''{'' @ bs ''fscx100'' @ bs ''fscy100'' @ bs ''c'' @ base_color style @ ''&}'')
      else if highlight_style style = ''glow_pulse'' then
        (if glow_enabled style then
           (let shadow_size = (if glow_intensity style = ''strong'' then 3 else 2 :: int)
            in ''{'' @ bs ''c'' @ highlight_color style @ ''&'' @ bs ''3c'' @ outline_color style
                 @ ''&'' @ bs ''4c'' @ highlight_color style @ ''&'' @ bs ''bord''
                 @ str_int (outline_width style) @ bs ''shad'' @ str_int shadow_size @ ''}''
                 @ word
                 @ ''{'' @ bs ''c'' @ base_color style @ ''&'' @ bs ''3c'' @ outline_color style
                 @ ''&'' @ bs ''4c&H00000000&'' @ bs ''bord2'' @ bs ''shad0}'')
         else
           ''{'' @ bs ''c'' @ highlight_color style @ ''&}'' @ word
             @ ''{'' @ bs ''c'' @ base_color style @ ''&}'')
      else if highlight_style style = ''background_highlight'' then
        ''{'' @ bs ''c'' @ base_color style @ ''&'' @ bs ''3c'' @ highlight_color style @ ''&''
          @ bs ''bord6}'' @ word
          @ ''{'' @ bs ''3c'' @ outline_color style @ ''&'' @ bs ''bord2}''
      else
        ''{'' @ bs ''c'' @ highlight_color style @ ''&}'' @ word
          @ ''{'' @ bs ''c'' @ base_color style @ ''&}'')"

text \<open>
  \<^verbatim>\<open>segment.get("words", [])\<close> and \<^verbatim>\<open>segment.get("display_text", "")\<close> read the optional
  fields; \<^verbatim>\<open>not words\<close> holds for the empty list.
\<close>

definition create_styled_text :: "segment \<Rightarrow> StyleConfig \<Rightarrow> string" where
  "create_styled_text segment style =
     (let words = (case seg_words segment of Some ws \<Rightarrow> ws | None \<Rightarrow> [])
      in if words = [] then (case display_text segment of Some t \<Rightarrow> t | None \<Rightarrow> '''')
         else
           join '' ''
             (fold (\<lambda>(i, word) styled_parts.
                      if i = 0 then styled_parts @ [highlight_word style word]
                      else styled_parts @ [word])
                   (enumerate 0 words) []))"

text \<open>The body of the loop over the segments in \<^verbatim>\<open>_generate_ass_content\<close>.\<close>

definition dialogue_line :: "StyleConfig \<Rightarrow> segment \<Rightarrow> string" where
  "dialogue_line style segment =
     (let start_time = seconds_to_ass_time (seg_start segment);
          end_time = seconds_to_ass_time (seg_end segment);
          styled_text = create_styled_text segment style
      in ''Dialogue: 0,'' @ start_time @ '','' @ end_time @ '',Default,,0,0,0,,'' @ styled_text)"

definition generate_ass_content :: "segment list \<Rightarrow> int \<Rightarrow> int \<Rightarrow> StyleConfig \<Rightarrow> string" where
  "generate_ass_content segments width height style =
     (let font_size = max (py_int (b64 (float_of_int height * font_size_ratio style))) 16;
          margin_bottom = max (py_int (b64 (float_of_int height * margin_ratio style))) 20;
          margin_side = 20;
          header = generate_header font_size margin_side margin_bottom style;
          dialogue_lines =
            fold (\<lambda>segment dialogue_lines. dialogue_lines @ [dialogue_line style segment])
                 segments []
      in header @ join [newline] dialogue_lines)"

text \<open>The literal returned by \<^verbatim>\<open>_generate_empty_ass_file\<close>, line by line.\<close>

definition empty_ass_file_lines :: "int \<Rightarrow> int \<Rightarrow> StyleConfig \<Rightarrow> string list" where
  "empty_ass_file_lines font_size margin_bottom style =
     [''[Script Info]'',
      ''Title: Subtitle Ninja'',
      ''ScriptType: v4.00+'',
      '''',
      ''[V4+ Styles]'',
      ''Format: Name, Fontname, Fontsize, PrimaryColour, SecondaryColour, OutlineColour, BackColour, Bold, Italic, Underline, StrikeOut, ScaleX, ScaleY, Spacing, Angle, BorderStyle, Outline, Shadow, Alignment, MarginL, MarginR, MarginV, Encoding'',
      ''Style: '' @ join '','' (fallback_style_values font_size margin_bottom style),
      '''',
      ''[Events]'',
      ''Format: Layer, Start, End, Style, Name, MarginL, MarginR, MarginV, Effect, Text'',
      ''Dialogue: 0,0:00:00.00,0:00:05.00,Default,,0,0,0,,No speech detected'']"

definition generate_empty_ass_file :: "StyleConfig \<Rightarrow> int \<Rightarrow> int \<Rightarrow> string" where
  "generate_empty_ass_file style width height =
     (let font_size = max (py_int (b64 (float_of_int height * font_size_ratio style))) 16;
          margin_bottom = max (py_int (b64 (float_of_int height * margin_ratio style))) 20
      in unlines (empty_ass_file_lines font_size margin_bottom style))"

text \<open>
  \<^verbatim>\<open>render_subtitles\<close> writes the text to \<^verbatim>\<open>/tmp/subtitles_<job_id>.ass\<close> and returns the
  path. The file system is a map from paths to contents; \<open>ass_content\<close> is the text bound
  to the local variable of that name.
\<close>

definition ass_content :: "segment list \<Rightarrow> int \<Rightarrow> int \<Rightarrow> StyleConfig \<Rightarrow> string" where
  "ass_content segments width height style =
     (if segments = [] then generate_empty_ass_file style width height
      else generate_ass_content segments width height style)"


subsection \<open>Reading the markup back\<close>

text \<open>
  The claims speak about the lines, style records and event lines of the produced text.
  \<open>split_on\<close> is \<^verbatim>\<open>str.split\<close> with a one-character separator; a style record is a line
  that starts with \<^verbatim>\<open>Style: \<close>, its fields are the comma-separated values after that
  prefix, in the order of the \<^verbatim>\<open>Format:\<close> line (field 0 is the name, 2 the font size, 19,
  20 and 21 the left, right and vertical margins); an event line starts with
  \<^verbatim>\<open>Dialogue: \<close>.
\<close>

fun split_on :: "'a \<Rightarrow> 'a list \<Rightarrow> 'a list list" where
  "split_on c [] = [[]]"
| "split_on c (x # xs) =
     (if x = c then [] # split_on c xs
      else (x # hd (split_on c xs)) # tl (split_on c xs))"

definition text_lines :: "string \<Rightarrow> string list" where
  "text_lines txt = split_on newline txt"

definition style_records :: "string \<Rightarrow> string list" where
  "style_records txt = filter (\<lambda>l. startswith l ''Style: '') (text_lines txt)"

definition record_fields :: "string \<Rightarrow> string list" where
  "record_fields l = split_on CHR '','' (drop (length ''Style: '') l)"

definition record_name :: "string \<Rightarrow> string" where
  "record_name l = hd (record_fields l)"

definition event_lines :: "string \<Rightarrow> string list" where
  "event_lines txt = filter (\<lambda>l. startswith l ''Dialogue: '') (text_lines txt)"

text \<open>
  Strings that occupy one line, and strings that occupy one comma-separated field. A
  one-line configuration has no line feed in its font family and colours; a plain one has
  no comma there either, so that its style records can be read back field by field.
\<close>

definition one_line :: "string \<Rightarrow> bool" where
  "one_line s = (newline \<notin> set s)"

definition plain :: "string \<Rightarrow> bool" where
  "plain s = (newline \<notin> set s \<and> CHR '','' \<notin> set s)"

definition one_line_style :: "StyleConfig \<Rightarrow> bool" where
  "one_line_style style =
     (one_line (font_family style) \<and> one_line (base_color style)
      \<and> one_line (highlight_color style) \<and> one_line (outline_color style)
      \<and> one_line (background_color style))"

definition plain_style :: "StyleConfig \<Rightarrow> bool" where
  "plain_style style =
     (plain (font_family style) \<and> plain (base_color style) \<and> plain (highlight_color style)
      \<and> plain (outline_color style) \<and> plain (background_color style))"

text \<open>A segment whose words and display text contain no line feed.\<close>

definition one_line_segment :: "segment \<Rightarrow> bool" where
  "one_line_segment segment =
     ((case seg_words segment of Some ws \<Rightarrow> list_all one_line ws | None \<Rightarrow> True)
      \<and> (case display_text segment of Some t \<Rightarrow> one_line t | None \<Rightarrow> True))"

text \<open>The placeholder event of the fallback file.\<close>

definition placeholder_event :: string where
  "placeholder_event = ''Dialogue: 0,0:00:00.00,0:00:05.00,Default,,0,0,0,,No speech detected''"

text \<open>The fixed-width fields of the time encodings: two and three decimal digits.\<close>

definition two_digits :: "int \<Rightarrow> string" where
  "two_digits n = [digit_char (nat n div 10), digit_char (nat n mod 10)]"

definition three_digits :: "int \<Rightarrow> string" where
  "three_digits n =
     [digit_char (nat n div 100), digit_char (nat n div 10 mod 10), digit_char (nat n mod 10)]"

section \<open>Properties\<close>

subsection \<open>Helper lemmas\<close>

lemma fold_append_map: "fold (\<lambda>i acc. acc @ [f i]) is acc0 = acc0 @ map f is"
  by (induction "is" arbitrary: acc0) simp_all

lemma fold_append_filter_map:
  "fold (\<lambda>j acc. if P j then acc @ [f j] else acc) js acc0 = acc0 @ map f (filter P js)"
  by (induction js arbitrary: acc0) simp_all

subsection \<open>Word Grouper\<close>

lemma filter_upt_bound: "filter (\<lambda>j. i + j < m) [0..<n] = [0..<min n (m - i)]"
proof (induction n)
  case 0
  show ?case by simp
next
  case (Suc n)
  show ?case
  proof (cases "i + n < m")
    case True
    then have "min (Suc n) (m - i) = Suc n" "min n (m - i) = n" by auto
    with Suc True show ?thesis by simp
  next
    case False
    then have "min (Suc n) (m - i) = m - i" "min n (m - i) = m - i" by auto
    with Suc False show ?thesis by simp
  qed
qed

text \<open>The inner loop collects the texts of the slice \<^verbatim>\<open>words[i : i + words_per_group]\<close>.\<close>

lemma group_words_at_eq:
  "group_words_at words wpg i = map word_text (take (nat wpg) (drop i words))"
proof -
  have "group_words_at words wpg i =
        map (\<lambda>j. word_text (words ! (i + j))) (filter (\<lambda>j. i + j < length words) [0..<nat wpg])"
    by (simp add: group_words_at_def fold_append_filter_map)
  also have "filter (\<lambda>j. i + j < length words) [0..<nat wpg] =
             [0..<min (nat wpg) (length words - i)]"
    by (rule filter_upt_bound)
  finally show ?thesis
    by (auto simp: list_eq_iff_nth_eq min_def)
qed

lemma create_word_groups_eq:
  "create_word_groups words wpg = map (word_group words wpg) [0..<length words]"
  by (simp add: create_word_groups_def fold_append_map)

text \<open>The worked example of the specification (three words, window 3).\<close>

lemma create_word_groups_example:
  "create_word_groups
     [\<lparr>word_start = 0, word_end = 0.5, word_text = ''hello''\<rparr>,
      \<lparr>word_start = 0.5, word_end = 1.2, word_text = ''there''\<rparr>,
      \<lparr>word_start = 1.2, word_end = 1.8, word_text = ''friend''\<rparr>] 3 =
   [\<lparr>seg_start = 0, seg_end = 0.5, seg_words = Some [''hello'', ''there'', ''friend''],
      current_word_index = 0, current_word = ''hello'',
      display_text = Some ''hello there friend''\<rparr>,
    \<lparr>seg_start = 0.5, seg_end = 1.2, seg_words = Some [''there'', ''friend''],
      current_word_index = 0, current_word = ''there'', display_text = Some ''there friend''\<rparr>,
    \<lparr>seg_start = 1.2, seg_end = 1.8, seg_words = Some [''friend''],
      current_word_index = 0, current_word = ''friend'', display_text = Some ''friend''\<rparr>]"
  by (simp add: create_word_groups_eq word_group_def group_words_at_eq upt_rec)

text \<open>
  Claim C1. For every word sequence and every positive \<open>words_per_group\<close>, the grouper
  returns one segment per input word: the output has the length of the input, and segment
  \<open>i\<close> carries the texts of \<^verbatim>\<open>words[i : i + words_per_group]\<close> (truncated at the end of
  the sequence), starts at \<^verbatim>\<open>words[i].start\<close>, and ends at \<^verbatim>\<open>words[i+1].start\<close> when index
  \<open>i + 1\<close> exists and at \<^verbatim>\<open>words[i].end\<close> otherwise.
\<close>

theorem create_word_groups_sliding_window:
  assumes "0 < words_per_group" and "i < length words"
  shows "length (create_word_groups words words_per_group) = length words
       \<and> seg_words (create_word_groups words words_per_group ! i) =
           Some (map word_text (take (nat words_per_group) (drop i words)))
       \<and> seg_start (create_word_groups words words_per_group ! i) = word_start (words ! i)
       \<and> seg_end (create_word_groups words words_per_group ! i) =
           (if i + 1 < length words then word_start (words ! (i + 1)) else word_end (words ! i))"
  using assms by (simp add: create_word_groups_eq word_group_def Let_def group_words_at_eq)

theorem create_word_groups_sliding_window_witness:
  "(0::int) < 3
   \<and> (1::nat) < length [\<lparr>word_start = 0, word_end = 0.5, word_text = ''hello''\<rparr>,
                        \<lparr>word_start = 0.5, word_end = 1.2, word_text = ''there''\<rparr>,
                        \<lparr>word_start = 1.2, word_end = 1.8, word_text = ''friend''\<rparr>]
   \<and> length (create_word_groups
        [\<lparr>word_start = 0, word_end = 0.5, word_text = ''hello''\<rparr>,
         \<lparr>word_start = 0.5, word_end = 1.2, word_text = ''there''\<rparr>,
         \<lparr>word_start = 1.2, word_end = 1.8, word_text = ''friend''\<rparr>] 3) = 3
   \<and> seg_words (create_word_groups
        [\<lparr>word_start = 0, word_end = 0.5, word_text = ''hello''\<rparr>,
         \<lparr>word_start = 0.5, word_end = 1.2, word_text = ''there''\<rparr>,
         \<lparr>word_start = 1.2, word_end = 1.8, word_text = ''friend''\<rparr>] 3 ! 1) =
       Some [''there'', ''friend'']
   \<and> seg_start (create_word_groups
        [\<lparr>word_start = 0, word_end = 0.5, word_text = ''hello''\<rparr>,
         \<lparr>word_start = 0.5, word_end = 1.2, word_text = ''there''\<rparr>,
         \<lparr>word_start = 1.2, word_end = 1.8, word_text = ''friend''\<rparr>] 3 ! 1) = 0.5
   \<and> seg_end (create_word_groups
        [\<lparr>word_start = 0, word_end = 0.5, word_text = ''hello''\<rparr>,
         \<lparr>word_start = 0.5, word_end = 1.2, word_text = ''there''\<rparr>,
         \<lparr>word_start = 1.2, word_end = 1.8, word_text = ''friend''\<rparr>] 3 ! 1) = 1.2"
  using create_word_groups_sliding_window
    [of 3 1 "[\<lparr>word_start = 0, word_end = 0.5, word_text = ''hello''\<rparr>,
              \<lparr>word_start = 0.5, word_end = 1.2, word_text = ''there''\<rparr>,
              \<lparr>word_start = 1.2, word_end = 1.8, word_text = ''friend''\<rparr>]"]
  by simp

text \<open>
  Claim C2. Whenever segments \<open>i\<close> and \<open>i + 1\<close> both exist in the grouper's output, the end
  of segment \<open>i\<close> equals the start of segment \<open>i + 1\<close>: the time ranges are contiguous.
\<close>

theorem create_word_groups_contiguous:
  assumes "Suc i < length (create_word_groups words words_per_group)"
  shows "seg_end (create_word_groups words words_per_group ! i) =
         seg_start (create_word_groups words words_per_group ! Suc i)"
  using assms by (simp add: create_word_groups_eq word_group_def Let_def)

theorem create_word_groups_contiguous_witness:
  "Suc 0 < length (create_word_groups
        [\<lparr>word_start = 0, word_end = 0.5, word_text = ''hello''\<rparr>,
         \<lparr>word_start = 0.5, word_end = 1.2, word_text = ''there''\<rparr>] 3)
   \<and> seg_end (create_word_groups
        [\<lparr>word_start = 0, word_end = 0.5, word_text = ''hello''\<rparr>,
         \<lparr>word_start = 0.5, word_end = 1.2, word_text = ''there''\<rparr>] 3 ! 0) =
     seg_start (create_word_groups
        [\<lparr>word_start = 0, word_end = 0.5, word_text = ''hello''\<rparr>,
         \<lparr>word_start = 0.5, word_end = 1.2, word_text = ''there''\<rparr>] 3 ! Suc 0)"
proof -
  have len: "Suc 0 < length (create_word_groups
        [\<lparr>word_start = 0, word_end = 0.5, word_text = ''hello''\<rparr>,
         \<lparr>word_start = 0.5, word_end = 1.2, word_text = ''there''\<rparr>] 3)"
    by (simp add: create_word_groups_eq)
  from len create_word_groups_contiguous [OF len] show ?thesis by blast
qed

subsection \<open>Style Model\<close>

lemma map_of_presets_default:
  "map_of presets ''instagram_classic'' = Some (snd (hd presets))"
  by (simp add: presets_def)

lemma map_of_presets_unknown:
  "preset_name \<notin> set list_presets \<Longrightarrow> map_of presets preset_name = None"
  by (simp add: presets_def list_presets_def)

lemma keys_presets: "map fst presets = list_presets"
  by (simp add: presets_def list_presets_def)

text \<open>
  Claim C8. A preset name outside the recognised names gives the same configuration as
  \<^verbatim>\<open>instagram_classic\<close>, and \<^verbatim>\<open>get_preset\<close> returns a configuration for every string.
\<close>

theorem get_preset_fallback:
  "(preset_name \<notin> set list_presets \<longrightarrow> get_preset preset_name = get_preset ''instagram_classic'')
   \<and> (\<exists>style. get_preset preset_name = Inr style)"
  by (simp add: get_preset_def map_of_presets_default map_of_presets_unknown)

theorem get_preset_fallback_witness:
  "''nonexistent_name'' \<notin> set list_presets
   \<and> get_preset ''nonexistent_name'' = get_preset ''instagram_classic''
   \<and> (\<exists>style. get_preset ''nonexistent_name'' = Inr style)"
proof -
  have unknown: "''nonexistent_name'' \<notin> set list_presets"
    by (simp add: list_presets_def)
  with get_preset_fallback [of "''nonexistent_name''"] show ?thesis by blast
qed

lemma length6_cases:
  assumes "length h = 6"
  obtains a b c d e f where "h = [a, b, c, d, e, f]"
  using assms by (auto simp: eval_nat_numeral length_Suc_conv)

lemma hex_digit_not_hash: "is_hex_digit c \<Longrightarrow> c \<noteq> CHR ''#''"
  by (auto simp: is_hex_digit_def)

text \<open>
  Claim C5. For a well-formed colour of six hexadecimal digits, with or without the leading
  \<^verbatim>\<open>#\<close> and in any letter case, converting to the packed encoding and back gives \<^verbatim>\<open>#\<close>
  followed by the six digits in upper case.
\<close>

theorem hex_ass_hex_roundtrip:
  assumes "well_formed_hex6 s"
  shows "convert_ass_to_hex_color (convert_hex_to_ass_color s) = CHR ''#'' # py_upper (strip_hash s)"
proof -
  from assms have len: "length (strip_hash s) = 6" and hex: "list_all is_hex_digit (strip_hash s)"
    by (simp_all add: well_formed_hex6_def)
  from len obtain a b c d e f where h: "strip_hash s = [a, b, c, d, e, f]"
    by (rule length6_cases)
  from hex h have "a \<noteq> CHR ''#''"
    by (simp add: hex_digit_not_hash)
  with h have "s = [a, b, c, d, e, f] \<or> s = CHR ''#'' # [a, b, c, d, e, f]"
    by (auto simp: strip_hash_def split: list.splits if_splits)
  then show ?thesis
  proof
    assume "s = [a, b, c, d, e, f]"
    with \<open>a \<noteq> CHR ''#''\<close> show ?thesis
      by (simp add: convert_hex_to_ass_color_def convert_ass_to_hex_color_def startswith_def
          py_slice_def py_upper_def strip_hash_def upper_char_def)
  next
    assume "s = CHR ''#'' # [a, b, c, d, e, f]"
    then show ?thesis
      by (simp add: convert_hex_to_ass_color_def convert_ass_to_hex_color_def startswith_def
          py_slice_def py_upper_def strip_hash_def upper_char_def)
  qed
qed

theorem hex_ass_hex_roundtrip_witness:
  "well_formed_hex6 ''#ffd700''
   \<and> convert_hex_to_ass_color ''#ffd700'' = ''&H00d7ff''
   \<and> convert_ass_to_hex_color (convert_hex_to_ass_color ''#ffd700'') = ''#FFD700''"
proof -
  have wf: "well_formed_hex6 ''#ffd700''"
    by (simp add: well_formed_hex6_def strip_hash_def is_hex_digit_def)
  have "convert_hex_to_ass_color ''#ffd700'' = ''&H00d7ff''"
    by (simp add: convert_hex_to_ass_color_def startswith_def py_slice_def)
  moreover from hex_ass_hex_roundtrip [OF wf]
  have "convert_ass_to_hex_color (convert_hex_to_ass_color ''#ffd700'') = ''#FFD700''"
    by (simp add: strip_hash_def py_upper_def upper_char_def)
  ultimately show ?thesis using wf by blast
qed

text \<open>
  Claim C7 as stated: every string that is not a well-formed colour is converted to the
  default white \<^verbatim>\<open>&Hffffff\<close>. The conversion checks the length only, so six characters that
  are not hexadecimal digits are packed like any other six characters.
\<close>

theorem malformed_hex_not_white:
  "\<not> well_formed_hex6 ''zzzzzz'' \<and> convert_hex_to_ass_color ''zzzzzz'' \<noteq> ''&Hffffff''"
  by (simp add: well_formed_hex6_def strip_hash_def is_hex_digit_def
      convert_hex_to_ass_color_def startswith_def py_slice_def)

text \<open>
  Claim C7, amended. Every string whose length, after one optional leading \<^verbatim>\<open>#\<close> is
  stripped, is not 6 is converted to the default white \<^verbatim>\<open>&Hffffff\<close>.
\<close>

theorem wrong_length_hex_is_white:
  assumes "length (strip_hash s) \<noteq> 6"
  shows "convert_hex_to_ass_color s = ''&Hffffff''"
  using assms
  by (cases s) (auto simp: convert_hex_to_ass_color_def startswith_def strip_hash_def)

theorem wrong_length_hex_is_white_witness:
  "length (strip_hash ''#fff'') \<noteq> 6 \<and> convert_hex_to_ass_color ''#fff'' = ''&Hffffff''"
proof -
  have short: "length (strip_hash ''#fff'') \<noteq> 6"
    by (simp add: strip_hash_def)
  with wrong_length_hex_is_white [OF short] show ?thesis by blast
qed

subsection \<open>Binary64 rounding\<close>

lemma two_powr_int: "(2::real) powr of_int k = 2 powi k"
  by (rule powr_real_of_int') simp_all

lemma floor_log2_iff:
  assumes "0 < x"
  shows "\<lfloor>log 2 x\<rfloor> = k \<longleftrightarrow> 2 powi k \<le> x \<and> x < 2 powi (k + 1)"
proof -
  have "\<lfloor>log 2 x\<rfloor> = k \<longleftrightarrow> 2 powr of_int k \<le> x \<and> x < 2 powr (of_int k + 1)"
    using assms floor_log_eq_powr_iff [of x 2 k] by simp
  moreover have "(2::real) powr (of_int k + 1) = 2 powr of_int (k + 1)"
    by simp
  ultimately show ?thesis
    by (simp only: two_powr_int)
qed

lemma binade_bounds:
  assumes "x \<noteq> 0"
  shows "2 powi \<lfloor>log 2 \<bar>x\<bar>\<rfloor> \<le> \<bar>x\<bar>" and "\<bar>x\<bar> < 2 powi (\<lfloor>log 2 \<bar>x\<bar>\<rfloor> + 1)"
proof -
  from assms have pos: "0 < \<bar>x\<bar>" by simp
  from floor_log2_iff [OF pos, of "\<lfloor>log 2 \<bar>x\<bar>\<rfloor>"]
  show "2 powi \<lfloor>log 2 \<bar>x\<bar>\<rfloor> \<le> \<bar>x\<bar>" and "\<bar>x\<bar> < 2 powi (\<lfloor>log 2 \<bar>x\<bar>\<rfloor> + 1)"
    by blast+
qed

lemma binade_unique:
  assumes "2 powi k \<le> \<bar>x\<bar>" and "\<bar>x\<bar> < 2 powi (k + 1)"
  shows "\<lfloor>log 2 \<bar>x\<bar>\<rfloor> = k"
proof -
  have "0 < (2::real) powi k" by simp
  with assms have pos: "0 < \<bar>x\<bar>" by linarith
  from floor_log2_iff [OF pos, of k] assms show ?thesis by blast
qed

lemma round_half_even_of_int: "round_half_even (of_int m) = m"
  by (simp add: round_half_even_def)

lemma round_half_even_ge: "of_int m \<le> y \<Longrightarrow> m \<le> round_half_even y"
proof -
  assume "of_int m \<le> y"
  then have "m \<le> \<lfloor>y\<rfloor>" by (simp add: le_floor_iff)
  then show ?thesis by (auto simp: round_half_even_def Let_def)
qed

lemma round_half_even_le: "y \<le> of_int m \<Longrightarrow> round_half_even y \<le> m"
proof -
  assume le: "y \<le> of_int m"
  show ?thesis
  proof (cases "y = of_int m")
    case True
    then show ?thesis by (simp add: round_half_even_of_int)
  next
    case False
    with le have "y < of_int m" by simp
    then have "\<lfloor>y\<rfloor> < m" by (simp add: floor_less_iff)
    then show ?thesis by (auto simp: round_half_even_def Let_def)
  qed
qed

lemma round_half_even_below_half:
  "y < of_int m - 1 / 2 \<Longrightarrow> round_half_even y \<le> m - 1"
proof -
  assume lt: "y < of_int m - 1 / 2"
  have f: "of_int \<lfloor>y\<rfloor> \<le> y" by simp
  show ?thesis
  proof (cases "y - of_int \<lfloor>y\<rfloor> < 1 / 2")
    case True
    from lt have "y < of_int m" by linarith
    then have "\<lfloor>y\<rfloor> < m" by (simp add: floor_less_iff)
    with True show ?thesis by (simp add: round_half_even_def Let_def)
  next
    case False
    with lt have "of_int \<lfloor>y\<rfloor> < (of_int m :: real) - 1" by linarith
    then have "of_int \<lfloor>y\<rfloor> < (of_int (m - 1) :: real)" by simp
    then have "\<lfloor>y\<rfloor> < m - 1" by (simp only: of_int_less_iff)
    then show ?thesis by (auto simp: round_half_even_def Let_def)
  qed
qed

lemma b64_ulp_pos: "0 < b64_ulp x"
  by (simp add: b64_ulp_def)


lemma b64_binade:
  assumes "2 powi k \<le> \<bar>x\<bar>" and "\<bar>x\<bar> < 2 powi (k + 1)"
  shows "b64 x = 2 powi (k - 52) * of_int (round_half_even (x / 2 powi (k - 52)))"
proof -
  have "0 < (2::real) powi k" by simp
  with assms(1) have "0 < \<bar>x\<bar>" by linarith
  then have "x \<noteq> 0" by simp
  with binade_unique [OF assms] show ?thesis
    by (simp add: b64_def b64_ulp_def)
qed

lemma b64_nonneg: "0 \<le> x \<Longrightarrow> 0 \<le> b64 x"
proof -
  assume x: "0 \<le> x"
  have q: "0 < b64_ulp x" by (rule b64_ulp_pos)
  with x have "of_int 0 \<le> x / b64_ulp x" by simp
  then have "0 \<le> round_half_even (x / b64_ulp x)" by (rule round_half_even_ge)
  with q show ?thesis by (simp add: b64_def)
qed

lemma ulp_scale:
  fixes y :: real
  assumes "e \<le> 52"
  shows "y / 2 powi (e - 52) = y * 2 ^ nat (52 - e)"
proof -
  from assms have a: "(2::real) ^ nat (52 - e) = 2 powi (52 - e)"
    by (simp add: power_int_def)
  have "(2::real) powi (e - 52) * 2 powi (52 - e) = 2 powi ((e - 52) + (52 - e))"
    by (rule power_int_add [symmetric]) simp
  then have "(2::real) powi (e - 52) * 2 powi (52 - e) = 1" by simp
  then have "inverse ((2::real) powi (e - 52)) = 2 powi (52 - e)"
    by (rule inverse_unique)
  with a show ?thesis by (simp only: divide_inverse)
qed

lemma int_below_2_53:
  assumes "(b::int) < 2 ^ 53"
  shows "(of_int b :: real) < 2 ^ 53"
proof -
  from assms have "(of_int b :: real) < of_int (2 ^ 53)" by (simp only: of_int_less_iff)
  then show ?thesis by simp
qed

lemma exponent_le_52:
  fixes x :: real
  assumes "2 powi e \<le> x" and "x < 2 ^ 53"
  shows "e \<le> 52"
proof (rule ccontr)
  assume "\<not> e \<le> 52"
  then have "53 \<le> e" by simp
  then have "(2::real) powi 53 \<le> 2 powi e" by (intro power_int_increasing) simp_all
  moreover have "(2::real) powi 53 = 2 ^ 53" by simp
  ultimately show False using assms by linarith
qed

lemma b64_le_int:
  assumes "0 \<le> x" and "x \<le> of_int b" and "b < 2 ^ 53"
  shows "b64 x \<le> of_int b"
proof (cases "x = 0")
  case True
  with assms show ?thesis by (simp add: b64_def)
next
  case False
  with assms have pos: "0 < x" by simp
  define e where "e = \<lfloor>log 2 \<bar>x\<bar>\<rfloor>"
  define q :: real where "q = 2 powi (e - 52)"
  define p :: real where "p = 2 ^ nat (52 - e)"
  from binade_bounds(1) [OF False] pos have lo: "2 powi e \<le> x"
    by (simp add: e_def)
  from assms(2) int_below_2_53 [OF assms(3)] have "x < 2 ^ 53" by linarith
  with lo have e: "e \<le> 52" by (rule exponent_le_52)
  have q: "0 < q" by (simp add: q_def)
  have p: "0 \<le> p" by (simp add: p_def)
  have scale: "y / q = y * p" for y
    unfolding q_def p_def by (rule ulp_scale [OF e])
  have qp: "q * p = 1" using scale [of q] q by simp
  from assms(2) p have "x * p \<le> of_int b * p" by (rule mult_right_mono)
  then have "x / q \<le> of_int (b * 2 ^ nat (52 - e))"
    by (simp add: scale p_def)
  then have "round_half_even (x / q) \<le> b * 2 ^ nat (52 - e)"
    by (rule round_half_even_le)
  then have "(of_int (round_half_even (x / q)) :: real) \<le> of_int (b * 2 ^ nat (52 - e))"
    by (simp only: of_int_le_iff)
  then have "(of_int (round_half_even (x / q)) :: real) \<le> of_int b * p"
    by (simp add: p_def)
  with q have "q * of_int (round_half_even (x / q)) \<le> q * (of_int b * p)"
    by (intro mult_left_mono) simp_all
  also have "q * (of_int b * p) = of_int b * (q * p)" by (simp only: mult_ac)
  also have "\<dots> = of_int b" by (simp add: qp)
  finally show ?thesis
    using False by (simp add: b64_def b64_ulp_def e_def q_def)
qed

lemma b64_ge_int:
  assumes "of_int a \<le> x" and "0 \<le> a" and "a < 2 ^ 53"
  shows "of_int a \<le> b64 x"
proof (cases "x = 0")
  case True
  with assms show ?thesis by (simp add: b64_def)
next
  case False
  from assms(2) have "0 \<le> (of_int a :: real)" by simp
  with assms(1) False have pos: "0 < x" by linarith
  define e where "e = \<lfloor>log 2 \<bar>x\<bar>\<rfloor>"
  define q :: real where "q = 2 powi (e - 52)"
  from binade_bounds(1) [OF False] pos have lo: "2 powi e \<le> x"
    by (simp add: e_def)
  have q: "0 < q" by (simp add: q_def)
  have b: "b64 x = q * of_int (round_half_even (x / q))"
    using False by (simp add: b64_def b64_ulp_def e_def q_def)
  show ?thesis
  proof (cases "e \<le> 52")
    case True
    define p :: real where "p = 2 ^ nat (52 - e)"
    have p: "0 \<le> p" by (simp add: p_def)
    have scale: "y / q = y * p" for y
      unfolding q_def p_def by (rule ulp_scale [OF True])
    have qp: "q * p = 1" using scale [of q] q by simp
    from assms(1) p have "of_int a * p \<le> x * p" by (rule mult_right_mono)
    then have "of_int (a * 2 ^ nat (52 - e)) \<le> x / q"
      by (simp add: scale p_def)
    then have "a * 2 ^ nat (52 - e) \<le> round_half_even (x / q)"
      by (rule round_half_even_ge)
    then have "(of_int (a * 2 ^ nat (52 - e)) :: real) \<le> of_int (round_half_even (x / q))"
      by (simp only: of_int_le_iff)
    then have "of_int a * p \<le> (of_int (round_half_even (x / q)) :: real)"
      by (simp add: p_def)
    with q have "q * (of_int a * p) \<le> q * of_int (round_half_even (x / q))"
      by (intro mult_left_mono) simp_all
    moreover have "q * (of_int a * p) = of_int a * (q * p)" by (simp only: mult_ac)
    ultimately show ?thesis by (simp add: b qp)
  next
    case False
    then have "53 \<le> e" by simp
    then have "(2::real) powi 53 \<le> 2 powi e" by (intro power_int_increasing) simp_all
    moreover have "(2::real) powi 53 = 2 ^ 53" by simp
    ultimately have big: "(2::real) ^ 53 \<le> 2 powi e" by simp
    have split: "(2::real) powi e = q * 2 powi 52"
      unfolding q_def using power_int_add [of "2::real" "e - 52" 52] by simp
    have "(2::real) powi 52 = of_int (2 ^ 52)" by simp
    with split have split': "(2::real) powi e = q * of_int (2 ^ 52)" by simp
    from lo split' have "q * of_int (2 ^ 52) \<le> x" by simp
    with q have "of_int (2 ^ 52) \<le> x / q"
      by (simp only: pos_le_divide_eq mult.commute)
    then have "2 ^ 52 \<le> round_half_even (x / q)"
      by (rule round_half_even_ge)
    then have "(of_int (2 ^ 52) :: real) \<le> of_int (round_half_even (x / q))"
      by (simp only: of_int_le_iff)
    with q have "q * of_int (2 ^ 52) \<le> q * of_int (round_half_even (x / q))"
      by (intro mult_left_mono) simp_all
    with split' b have "2 powi e \<le> b64 x" by simp
    with big int_below_2_53 [OF assms(3)] show ?thesis by linarith
  qed
qed

lemma b64_of_int:
  assumes "0 \<le> n" and "n < 2 ^ 53"
  shows "b64 (of_int n) = of_int n"
proof -
  from assms(1) have "0 \<le> (of_int n :: real)" by simp
  from b64_le_int [OF this _ assms(2)] have "b64 (of_int n) \<le> of_int n" by simp
  moreover from b64_ge_int [OF _ assms] have "of_int n \<le> b64 (of_int n)" by simp
  ultimately show ?thesis by simp
qed

subsection \<open>Time encodings\<close>

lemma py_int_of_int: "py_int (of_int k) = k"
  by (simp add: py_int_def)

lemma py_int_nonneg: "0 \<le> x \<Longrightarrow> py_int x = \<lfloor>x\<rfloor>"
  by (simp add: py_int_def)

lemma floor_rem_range:
  fixes x y :: real
  assumes "0 < y"
  shows "0 \<le> x - y * of_int \<lfloor>x / y\<rfloor>" and "x - y * of_int \<lfloor>x / y\<rfloor> < y"
proof -
  have lo: "of_int \<lfloor>x / y\<rfloor> \<le> x / y" and hi: "x / y < of_int \<lfloor>x / y\<rfloor> + 1"
    by linarith+
  from assms have "(of_int \<lfloor>x / y\<rfloor> * y \<le> x) = (of_int \<lfloor>x / y\<rfloor> \<le> x / y)"
    by (simp only: pos_le_divide_eq)
  with lo have a: "of_int \<lfloor>x / y\<rfloor> * y \<le> x" by blast
  from assms
  have "(x < (of_int \<lfloor>x / y\<rfloor> + 1) * y) = (x / y < of_int \<lfloor>x / y\<rfloor> + 1)"
    by (simp only: pos_divide_less_eq)
  with hi have b: "x < (of_int \<lfloor>x / y\<rfloor> + 1) * y" by blast
  from a show "0 \<le> x - y * of_int \<lfloor>x / y\<rfloor>" by (simp add: algebra_simps)
  from b show "x - y * of_int \<lfloor>x / y\<rfloor> < y" by (simp add: algebra_simps)
qed

lemma c_fmod_nonneg:
  assumes "0 \<le> x" and "0 < y"
  shows "c_fmod x y = x - y * of_int \<lfloor>x / y\<rfloor>"
proof -
  from assms have "0 \<le> x / y" by simp
  then show ?thesis by (simp add: c_fmod_def py_int_nonneg)
qed

lemma py_mod_nonneg:
  assumes "0 \<le> x" and "0 < y"
  shows "py_mod x y = x - y * of_int \<lfloor>x / y\<rfloor>"
proof -
  define v where "v = x - y * of_int \<lfloor>x / y\<rfloor>"
  have m: "c_fmod x y = v"
    unfolding v_def using assms by (rule c_fmod_nonneg)
  from floor_rem_range(1) [OF assms(2), of x] have "0 \<le> v"
    by (simp only: v_def)
  with assms(2) have "(y < 0) = (v < 0)" by simp
  then have "py_mod x y = v"
    by (simp add: py_mod_def Let_def m)
  then show ?thesis by (simp only: v_def)
qed

lemma py_floordiv_exact:
  assumes "0 \<le> x" and "x < 2 ^ 53" and "0 < n"
  shows "py_floordiv x (of_int n) = of_int \<lfloor>x / of_int n\<rfloor>"
proof -
  define k where "k = \<lfloor>x / of_int n\<rfloor>"
  from assms(3) have n: "0 < (of_int n :: real)" by simp
  from assms(1) n have "0 \<le> x / of_int n" by simp
  then have k0: "0 \<le> k" by (simp add: k_def)
  have m: "c_fmod x (of_int n) = x - of_int n * of_int k"
    unfolding k_def using assms(1) n by (rule c_fmod_nonneg)
  from floor_rem_range(1) [OF n, of x] have m0: "0 \<le> x - of_int n * of_int k"
    by (simp add: k_def)
  then have "of_int (n * k) \<le> x" by simp
  with assms(2) have "(of_int (n * k) :: real) < of_int (2 ^ 53)" by simp
  then have nk: "n * k < 2 ^ 53" by (simp only: of_int_less_iff)
  from assms(3) have "1 \<le> n" by simp
  then have "1 * k \<le> n * k" using k0 by (rule mult_right_mono)
  then have "k \<le> n * k" by simp
  with nk have k53: "k < 2 ^ 53" by simp
  from assms(3) k0 have nk0: "0 \<le> n * k" by simp
  have diff: "x - (x - of_int n * of_int k) = of_int (n * k)" by simp
  have "b64 (x - (x - of_int n * of_int k)) = of_int (n * k)"
    unfolding diff using nk0 nk by (rule b64_of_int)
  moreover from n have "(of_int (n * k) :: real) / of_int n = of_int k" by simp
  moreover have "b64 (of_int k) = of_int k" using k0 k53 by (rule b64_of_int)
  ultimately have d0: "b64 (b64 (x - (x - of_int n * of_int k)) / of_int n) = of_int k"
    by simp
  have b0: "b64 0 = 0" by (simp add: b64_def)
  from m0 n have noadj: "\<not> (((of_int n :: real) < 0) \<noteq> (x - of_int n * of_int k < 0))"
    by simp
  show ?thesis
    unfolding py_floordiv_def Let_def m d0 k_def [symmetric]
    using noadj by (simp add: b0)
qed

lemma hours_eq:
  assumes "0 \<le> s" and "s < 2 ^ 53"
  shows "py_int (py_floordiv s 3600) = \<lfloor>s\<rfloor> div 3600"
proof -
  have "\<lfloor>s / real_of_int 3600\<rfloor> = \<lfloor>s\<rfloor> div 3600"
    by (rule floor_divide_real_eq_div) simp
  moreover have "py_floordiv s (of_int 3600) = of_int \<lfloor>s / of_int 3600\<rfloor>"
    using assms by (rule py_floordiv_exact) simp
  ultimately show ?thesis by (simp add: py_int_of_int)
qed

lemma minutes_eq:
  assumes "0 \<le> s"
  shows "py_int (py_floordiv (py_mod s 3600) 60) = \<lfloor>s\<rfloor> div 60 mod 60"
proof -
  define r where "r = s - 3600 * of_int \<lfloor>s / 3600\<rfloor>"
  have r: "py_mod s 3600 = r"
    unfolding r_def using assms by (rule py_mod_nonneg) simp
  from floor_rem_range [of 3600 s] have r0: "0 \<le> r" and r1: "r < 3600"
    by (simp_all add: r_def)
  from r1 have r53: "r < 2 ^ 53" by simp
  have fd: "py_floordiv r (of_int 60) = of_int \<lfloor>r / of_int 60\<rfloor>"
    using r0 r53 by (rule py_floordiv_exact) simp
  have a: "\<lfloor>s / real_of_int 60\<rfloor> = \<lfloor>s\<rfloor> div 60"
    by (rule floor_divide_real_eq_div) simp
  have b: "\<lfloor>s / real_of_int 3600\<rfloor> = \<lfloor>s\<rfloor> div 3600"
    by (rule floor_divide_real_eq_div) simp
  have "r / 60 = s / 60 - of_int (60 * \<lfloor>s / 3600\<rfloor>)"
    by (simp add: r_def field_simps)
  then have "\<lfloor>r / 60\<rfloor> = \<lfloor>s / 60\<rfloor> - 60 * \<lfloor>s / 3600\<rfloor>"
    by (simp only: floor_diff_of_int)
  moreover have "\<lfloor>s / 60\<rfloor> - 60 * \<lfloor>s / 3600\<rfloor> = \<lfloor>s\<rfloor> div 60 - 60 * (\<lfloor>s\<rfloor> div 3600)"
    using a b by simp
  moreover have "\<lfloor>s\<rfloor> div 3600 = \<lfloor>s\<rfloor> div 60 div 60"
    by (simp add: div_mult2_eq [symmetric])
  moreover have "\<lfloor>s\<rfloor> div 60 - 60 * (\<lfloor>s\<rfloor> div 60 div 60) = \<lfloor>s\<rfloor> div 60 mod 60"
    by (simp add: minus_mult_div_eq_mod)
  ultimately have "\<lfloor>r / 60\<rfloor> = \<lfloor>s\<rfloor> div 60 mod 60" by simp
  with fd show ?thesis by (simp add: r py_int_of_int)
qed

lemma secs_eq:
  assumes "0 \<le> s"
  shows "py_int (py_mod s 60) = \<lfloor>s\<rfloor> mod 60"
proof -
  define q where "q = \<lfloor>s / 60\<rfloor>"
  have a: "q = \<lfloor>s\<rfloor> div 60"
    unfolding q_def using floor_divide_real_eq_div [of 60 s] by simp
  have r: "py_mod s 60 = s - 60 * of_int q"
    unfolding q_def using assms by (rule py_mod_nonneg) simp
  from floor_rem_range(1) [of 60 s] have "0 \<le> s - 60 * of_int q"
    by (simp only: q_def)
  then have "py_int (s - 60 * of_int q) = \<lfloor>s - 60 * of_int q\<rfloor>"
    by (rule py_int_nonneg)
  also have "s - 60 * of_int q = s - of_int (60 * q)"
    by simp
  also have "\<lfloor>s - of_int (60 * q)\<rfloor> = \<lfloor>s\<rfloor> - 60 * q"
    by (simp only: floor_diff_of_int)
  also have "\<lfloor>s\<rfloor> - 60 * q = \<lfloor>s\<rfloor> mod 60"
    unfolding a by (simp only: minus_mult_div_eq_mod)
  finally have "py_int (s - of_int (60 * q)) = \<lfloor>s\<rfloor> mod 60" .
  then show ?thesis by (simp add: r)
qed

lemma fraction_eq:
  assumes "0 \<le> s" and "0 < k"
  shows "py_int (b64 (py_mod s 1 * k)) = \<lfloor>b64 ((s - of_int \<lfloor>s\<rfloor>) * k)\<rfloor>"
proof -
  have r: "py_mod s 1 = s - of_int \<lfloor>s\<rfloor>"
    using py_mod_nonneg [OF assms(1), of 1] by simp
  have "0 \<le> s - of_int \<lfloor>s\<rfloor>" by linarith
  with assms(2) have "0 \<le> (s - of_int \<lfloor>s\<rfloor>) * k" by simp
  then have "0 \<le> b64 ((s - of_int \<lfloor>s\<rfloor>) * k)" by (rule b64_nonneg)
  then show ?thesis by (simp add: r py_int_nonneg)
qed

lemma fraction_bounds:
  assumes "0 < (k::int)"
  shows "0 \<le> \<lfloor>(s - of_int \<lfloor>s\<rfloor>) * of_int k\<rfloor> \<and> \<lfloor>(s - of_int \<lfloor>s\<rfloor>) * of_int k\<rfloor> < k"
proof -
  have f: "0 \<le> s - of_int \<lfloor>s\<rfloor>" "s - of_int \<lfloor>s\<rfloor> < 1" by linarith+
  from assms have k: "0 < (of_int k :: real)" by simp
  from f k have "0 \<le> (s - of_int \<lfloor>s\<rfloor>) * of_int k" by simp
  moreover from f k have "(s - of_int \<lfloor>s\<rfloor>) * of_int k < of_int k"
    by (simp add: mult_less_cancel_right2)
  ultimately show ?thesis by (simp add: floor_less_iff)
qed

text \<open>The rounded product is the truncated one or the next integer.\<close>

lemma rounded_floor_bounds:
  assumes "0 \<le> x" and "x < 2 ^ 52"
  shows "\<lfloor>x\<rfloor> \<le> \<lfloor>b64 x\<rfloor>" and "\<lfloor>b64 x\<rfloor> \<le> \<lfloor>x\<rfloor> + 1"
proof -
  from assms(1) have t0: "0 \<le> \<lfloor>x\<rfloor>" by simp
  have "of_int \<lfloor>x\<rfloor> \<le> x" by simp
  with assms(2) have "(of_int \<lfloor>x\<rfloor> :: real) < of_int (2 ^ 52)" by simp
  then have t52: "\<lfloor>x\<rfloor> < 2 ^ 52" by (simp only: of_int_less_iff)
  then have t53: "\<lfloor>x\<rfloor> < 2 ^ 53" and t53': "\<lfloor>x\<rfloor> + 1 < 2 ^ 53" by simp_all
  have "of_int \<lfloor>x\<rfloor> \<le> b64 x"
    by (rule b64_ge_int [OF _ t0 t53]) simp
  then show "\<lfloor>x\<rfloor> \<le> \<lfloor>b64 x\<rfloor>" by (simp add: le_floor_iff)
  have "x \<le> of_int (\<lfloor>x\<rfloor> + 1)" by linarith
  with assms(1) have "b64 x \<le> of_int (\<lfloor>x\<rfloor> + 1)"
    using t53' by (intro b64_le_int)
  then have "\<lfloor>b64 x\<rfloor> \<le> \<lfloor>(of_int (\<lfloor>x\<rfloor> + 1) :: real)\<rfloor>" by (rule floor_mono)
  then show "\<lfloor>b64 x\<rfloor> \<le> \<lfloor>x\<rfloor> + 1" by (simp only: floor_of_int)
qed

lemma digit_char_0: "digit_char 0 = CHR ''0''"
  by (simp add: digit_char_def)

lemma str_nat_digit: "n < 10 \<Longrightarrow> str_nat n = [digit_char n]"
  by (simp add: str_nat.simps)

lemma str_nat_two: "10 \<le> n \<Longrightarrow> n < 100 \<Longrightarrow> str_nat n = [digit_char (n div 10), digit_char (n mod 10)]"
  by (subst str_nat.simps) (simp add: str_nat_digit)

lemma str_nat_three:
  "100 \<le> n \<Longrightarrow> n < 1000 \<Longrightarrow>
   str_nat n = [digit_char (n div 100), digit_char (n div 10 mod 10), digit_char (n mod 10)]"
  by (subst str_nat.simps) (simp add: str_nat_two div_mult2_eq [symmetric])

lemma fmt_0d_two_digits:
  assumes "0 \<le> n" and "n < 100"
  shows "fmt_0d 2 n = two_digits n"
proof (cases "nat n < 10")
  case True
  with assms show ?thesis
    by (simp add: fmt_0d_def zfill_def two_digits_def str_nat_digit digit_char_0)
next
  case False
  with assms have "10 \<le> nat n" "nat n < 100" by simp_all
  with assms show ?thesis
    by (simp add: fmt_0d_def zfill_def two_digits_def str_nat_two)
qed

lemma fmt_0d_three_digits:
  assumes "0 \<le> n" and "n < 1000"
  shows "fmt_0d 3 n = three_digits n"
proof -
  consider "nat n < 10" | "10 \<le> nat n" "nat n < 100" | "100 \<le> nat n" "nat n < 1000"
    using assms by linarith
  then show ?thesis
  proof cases
    case 1
    with assms show ?thesis
      by (simp add: fmt_0d_def zfill_def three_digits_def str_nat_digit digit_char_0 numeral_2_eq_2)
  next
    case 2
    then have "nat n div 100 = 0" by simp
    with 2 assms show ?thesis
      by (simp add: fmt_0d_def zfill_def three_digits_def str_nat_two digit_char_0)
  next
    case 3
    with assms show ?thesis
      by (simp add: fmt_0d_def zfill_def three_digits_def str_nat_three)
  qed
qed

lemma str_nat_nonempty: "str_nat n \<noteq> []"
  by (subst str_nat.simps) simp

lemma str_nat_long: "10 \<le> n \<Longrightarrow> 2 \<le> length (str_nat n)"
proof -
  assume "10 \<le> n"
  then have "str_nat n = str_nat (n div 10) @ [digit_char (n mod 10)]"
    by (subst str_nat.simps) simp
  moreover have "1 \<le> length (str_nat (n div 10))"
    using str_nat_nonempty [of "n div 10"] by (simp add: Suc_le_eq)
  ultimately show ?thesis by simp
qed

lemma fmt_0d_hours:
  assumes "0 \<le> n"
  shows "fmt_0d 2 n = (if n < 10 then two_digits n else str_int n)"
proof (cases "n < 10")
  case True
  with assms show ?thesis by (simp add: fmt_0d_two_digits)
next
  case False
  then have "2 \<le> length (str_nat (nat n))" by (intro str_nat_long) simp
  with False assms show ?thesis by (simp add: fmt_0d_def zfill_def str_int_def)
qed

lemma whole_seconds_split:
  "3600 * (T div 3600) + 60 * (T div 60 mod 60) + T mod 60 = (T::int)"
proof -
  define q where "q = T div 60"
  have "T div 3600 = q div 60" by (simp add: q_def div_mult2_eq [symmetric])
  moreover have "60 * (q div 60) + q mod 60 = q" by simp
  then have "3600 * (q div 60) + 60 * (q mod 60) = 60 * q" by linarith
  moreover have "60 * q + T mod 60 = T" by (simp add: q_def)
  ultimately show ?thesis by (simp add: q_def)
qed

lemma b64_below_int:
  assumes "2 powi k \<le> x" and "x < 2 powi (k + 1)"
    and "x < of_int N - 2 powi (k - 53)" and "k \<le> 52"
  shows "b64 x \<le> of_int N - 2 powi (k - 52)"
proof -
  define q :: real where "q = 2 powi (k - 52)"
  define p :: real where "p = 2 ^ nat (52 - k)"
  have q: "0 < q" by (simp add: q_def)
  have scale: "y / q = y * p" for y
    unfolding q_def p_def by (rule ulp_scale [OF assms(4)])
  have qp: "q * p = 1" using scale [of q] q by simp
  have "(2::real) powi (k - 52) = 2 powi (k - 53) * 2 powi 1"
    using power_int_add [of "2::real" "k - 53" 1] by simp
  then have half: "2 powi (k - 53) = q / 2" by (simp add: q_def)
  have "0 < (2::real) powi k" by simp
  with assms(1) have pos: "0 < x" by linarith
  from qp have "q / 2 * p = 1 / 2" by simp
  then have "(of_int N - q / 2) * p = of_int N * p - 1 / 2"
    by (simp only: left_diff_distrib)
  then have "(of_int N - q / 2) / q = of_int N * p - 1 / 2"
    by (simp only: scale)
  moreover from assms(3) q have "x / q < (of_int N - q / 2) / q"
    by (simp only: half divide_strict_right_mono)
  ultimately have "x / q < of_int (N * 2 ^ nat (52 - k)) - 1 / 2"
    by (simp add: p_def)
  then have "round_half_even (x / q) \<le> N * 2 ^ nat (52 - k) - 1"
    by (rule round_half_even_below_half)
  then have "(of_int (round_half_even (x / q)) :: real) \<le> of_int (N * 2 ^ nat (52 - k) - 1)"
    by (simp only: of_int_le_iff)
  then have "(of_int (round_half_even (x / q)) :: real) \<le> of_int N * p - 1"
    by (simp add: p_def)
  with q have "q * of_int (round_half_even (x / q)) \<le> q * (of_int N * p - 1)"
    by (intro mult_left_mono) simp_all
  also have "q * (of_int N * p - 1) = of_int N * (q * p) - q"
    by (simp add: algebra_simps)
  also have "\<dots> = of_int N - q" by (simp add: qp)
  finally have main: "q * of_int (round_half_even (x / q)) \<le> of_int N - q" .
  from pos assms(1,2) have "b64 x = q * of_int (round_half_even (x / q))"
    unfolding q_def by (intro b64_binade) simp_all
  with main show ?thesis by (simp add: q_def)
qed

lemma float_fraction_bound:
  assumes "b64 s = s" and "0 \<le> s"
  shows "s - of_int \<lfloor>s\<rfloor> \<le> 1 - 1 / 2 ^ 53"
proof (cases "s < 1 / 2")
  case True
  with assms(2) have "\<lfloor>s\<rfloor> = 0" by (simp add: floor_eq_iff)
  with True show ?thesis by simp
next
  case False
  then have half: "1 / 2 \<le> s" by simp
  then have nz: "s \<noteq> 0" by simp
  define e where "e = \<lfloor>log 2 \<bar>s\<bar>\<rfloor>"
  define M where "M = round_half_even (s / 2 powi (e - 52))"
  from nz assms(1) have rep: "s = 2 powi (e - 52) * of_int M"
    by (simp add: b64_def b64_ulp_def e_def M_def)
  have e: "- 1 \<le> e"
  proof (rule ccontr)
    assume "\<not> - 1 \<le> e"
    then have "e + 1 \<le> - 1" by simp
    then have "(2::real) powi (e + 1) \<le> 2 powi (- 1)"
      by (intro power_int_increasing) simp_all
    moreover from binade_bounds(2) [OF nz] assms(2) have "s < 2 powi (e + 1)"
      by (simp add: e_def)
    ultimately show False using half by simp
  qed
  have "(2::real) powi (e - 52) * 2 powi 53 = 2 powi (e - 52 + 53)"
    by (rule power_int_add [symmetric]) simp
  also have "\<dots> = (2::real) powi int (nat (e + 1))" using e by (simp add: add.commute)
  also have "\<dots> = 2 ^ nat (e + 1)" by (rule power_int_of_nat)
  finally have "(2::real) powi (e - 52) * 2 ^ 53 = 2 ^ nat (e + 1)" by simp
  then have "s * 2 ^ 53 = of_int M * 2 ^ nat (e + 1)"
    by (subst rep) (simp add: mult_ac)
  then have "(s - of_int \<lfloor>s\<rfloor>) * 2 ^ 53 = of_int (M * 2 ^ nat (e + 1) - \<lfloor>s\<rfloor> * 2 ^ 53)"
    by (simp add: left_diff_distrib)
  moreover have "s - of_int \<lfloor>s\<rfloor> < 1" by linarith
  then have "(s - of_int \<lfloor>s\<rfloor>) * 2 ^ 53 < of_int (2 ^ 53)" by simp
  ultimately have "(of_int (M * 2 ^ nat (e + 1) - \<lfloor>s\<rfloor> * 2 ^ 53) :: real) < of_int (2 ^ 53)"
    by simp
  then have "M * 2 ^ nat (e + 1) - \<lfloor>s\<rfloor> * 2 ^ 53 < 2 ^ 53"
    by (simp only: of_int_less_iff)
  then have "M * 2 ^ nat (e + 1) - \<lfloor>s\<rfloor> * 2 ^ 53 \<le> 2 ^ 53 - 1" by simp
  then have "(of_int (M * 2 ^ nat (e + 1) - \<lfloor>s\<rfloor> * 2 ^ 53) :: real) \<le> of_int (2 ^ 53 - 1)"
    by (simp only: of_int_le_iff)
  with \<open>(s - of_int \<lfloor>s\<rfloor>) * 2 ^ 53 = of_int (M * 2 ^ nat (e + 1) - \<lfloor>s\<rfloor> * 2 ^ 53)\<close>
  have "(s - of_int \<lfloor>s\<rfloor>) * 2 ^ 53 \<le> 2 ^ 53 - 1" by simp
  then show ?thesis by (simp add: field_simps)
qed

lemma b64_eval:
  assumes "2 powi k \<le> x" and "x < 2 powi (k + 1)"
    and "round_half_even (x / 2 powi (k - 52)) = M"
  shows "b64 x = 2 powi (k - 52) * of_int M"
proof -
  have "0 < (2::real) powi k" by simp
  with assms(1) have "\<bar>x\<bar> = x" by linarith
  with assms b64_binade [of k x] show ?thesis by simp
qed

lemma b64_0: "b64 0 = 0"
  by (simp add: b64_def)

lemma lit_3725: "b64 3725.456 = 2048091095383933 / 2 ^ 39"
  by (subst b64_eval [of 11 _ 8192364381535732]) (simp_all add: round_half_even_def)

lemma lit_3725_float: "b64 (2048091095383933 / 2 ^ 39) = 2048091095383933 / 2 ^ 39"
  by (subst b64_eval [of 11 _ 8192364381535732]) (simp_all add: round_half_even_def)

lemma floor_3725: "\<lfloor>2048091095383933 / 2 ^ 39 :: real\<rfloor> = 3725"
  by simp

lemma centis_3725: "\<lfloor>b64 ((2048091095383933 / 2 ^ 39 - 3725) * 100)\<rfloor> = 45"
  by (subst b64_eval [of 5 _ 6417629469004800]) (simp_all add: round_half_even_def)

lemma millis_3725: "\<lfloor>b64 ((2048091095383933 / 2 ^ 39 - 3725) * 1000)\<rfloor> = 456"
  by (subst b64_eval [of 8 _ 8022036836256000]) (simp_all add: round_half_even_def)

lemma lit_003_float: "b64 (1080863910568919 / 2 ^ 55) = 1080863910568919 / 2 ^ 55"
  by (subst b64_eval [of "- 6" _ 8646911284551352]) (simp_all add: round_half_even_def)

lemma centis_003: "b64 (1080863910568919 / 2 ^ 55 * 100) = 3"
  by (subst b64_eval [of 1 _ 6755399441055744]) (simp_all add: round_half_even_def)

lemma sub_second_below:
  assumes "b64 s = s" and "0 \<le> s"
  shows "\<lfloor>b64 ((s - of_int \<lfloor>s\<rfloor>) * 100)\<rfloor> < 100"
    and "\<lfloor>b64 ((s - of_int \<lfloor>s\<rfloor>) * 1000)\<rfloor> < 1000"
proof -
  define f where "f = s - of_int \<lfloor>s\<rfloor>"
  have f0: "0 \<le> f" unfolding f_def by linarith
  from float_fraction_bound [OF assms] have f1: "f \<le> 1 - 1 / 2 ^ 53"
    by (simp only: f_def)
  have "b64 (f * 100) < 100"
  proof (cases "f * 100 \<le> 99")
    case True
    from f0 have "0 \<le> f * 100" by simp
    then have "b64 (f * 100) \<le> of_int 99"
      using True by (intro b64_le_int) simp_all
    then show ?thesis by simp
  next
    case False
    from f1 have up: "f * 100 \<le> 100 - 100 / 2 ^ 53" by simp
    have "b64 (f * 100) \<le> of_int 100 - 2 powi (6 - 52)"
      using False up by (intro b64_below_int) simp_all
    then show ?thesis by simp
  qed
  then show "\<lfloor>b64 ((s - of_int \<lfloor>s\<rfloor>) * 100)\<rfloor> < 100"
    by (simp add: f_def floor_less_iff)
  have "b64 (f * 1000) < 1000"
  proof (cases "f * 1000 \<le> 999")
    case True
    from f0 have "0 \<le> f * 1000" by simp
    then have "b64 (f * 1000) \<le> of_int 999"
      using True by (intro b64_le_int) simp_all
    then show ?thesis by simp
  next
    case False
    from f1 have up: "f * 1000 \<le> 1000 - 1000 / 2 ^ 53" by simp
    have "b64 (f * 1000) \<le> of_int 1000 - 2 powi (9 - 52)"
      using False up by (intro b64_below_int) simp_all
    then show ?thesis by simp
  qed
  then show "\<lfloor>b64 ((s - of_int \<lfloor>s\<rfloor>) * 1000)\<rfloor> < 1000"
    by (simp add: f_def floor_less_iff)
qed

lemma sub_second_nonneg: "0 \<le> k \<Longrightarrow> 0 \<le> \<lfloor>b64 ((s - of_int \<lfloor>s\<rfloor>) * k)\<rfloor>"
proof -
  assume "0 \<le> k"
  moreover have "0 \<le> s - of_int \<lfloor>s\<rfloor>" by linarith
  ultimately have "0 \<le> (s - of_int \<lfloor>s\<rfloor>) * k" by simp
  then have "0 \<le> b64 ((s - of_int \<lfloor>s\<rfloor>) * k)" by (rule b64_nonneg)
  then show ?thesis by simp
qed

lemma ass_time_fields:
  assumes "0 \<le> seconds" and "seconds < 2 ^ 53" and "b64 seconds = seconds"
  shows "seconds_to_ass_time seconds =
     str_int (\<lfloor>seconds\<rfloor> div 3600) @ '':'' @ two_digits (\<lfloor>seconds\<rfloor> div 60 mod 60) @ '':''
       @ two_digits (\<lfloor>seconds\<rfloor> mod 60) @ ''.''
       @ two_digits \<lfloor>b64 ((seconds - of_int \<lfloor>seconds\<rfloor>) * 100)\<rfloor>"
proof -
  let ?T = "\<lfloor>seconds\<rfloor>"
  let ?cc = "\<lfloor>b64 ((seconds - of_int ?T) * 100)\<rfloor>"
  have m: "0 \<le> ?T div 60 mod 60" "?T div 60 mod 60 < 100" by simp_all
  have s: "0 \<le> ?T mod 60" "?T mod 60 < 100" by simp_all
  have cc: "0 \<le> ?cc" "?cc < 100"
    using sub_second_nonneg [of 100 seconds] sub_second_below(1) [OF assms(3,1)] by simp_all
  have cc_eq: "py_int (b64 (py_mod seconds 1 * 100)) = ?cc"
    using assms(1) by (rule fraction_eq) simp
  show ?thesis
    unfolding seconds_to_ass_time_def Let_def hours_eq [OF assms(1,2)] minutes_eq [OF assms(1)]
      secs_eq [OF assms(1)] cc_eq
    using m s cc by (simp only: fmt_0d_two_digits)
qed

lemma srt_time_fields:
  assumes "0 \<le> seconds" and "seconds < 2 ^ 53" and "b64 seconds = seconds"
  shows "seconds_to_srt_time seconds =
     (if \<lfloor>seconds\<rfloor> div 3600 < 10 then two_digits (\<lfloor>seconds\<rfloor> div 3600)
      else str_int (\<lfloor>seconds\<rfloor> div 3600))
       @ '':'' @ two_digits (\<lfloor>seconds\<rfloor> div 60 mod 60) @ '':''
       @ two_digits (\<lfloor>seconds\<rfloor> mod 60) @ '',''
       @ three_digits \<lfloor>b64 ((seconds - of_int \<lfloor>seconds\<rfloor>) * 1000)\<rfloor>"
proof -
  let ?T = "\<lfloor>seconds\<rfloor>"
  let ?ms = "\<lfloor>b64 ((seconds - of_int ?T) * 1000)\<rfloor>"
  from assms(1) have "0 \<le> ?T" by simp
  then have h: "0 \<le> ?T div 3600" by (simp add: pos_imp_zdiv_nonneg_iff)
  have m: "0 \<le> ?T div 60 mod 60" "?T div 60 mod 60 < 100" by simp_all
  have s: "0 \<le> ?T mod 60" "?T mod 60 < 100" by simp_all
  have ms: "0 \<le> ?ms" "?ms < 1000"
    using sub_second_nonneg [of 1000 seconds] sub_second_below(2) [OF assms(3,1)] by simp_all
  have ms_eq: "py_int (b64 (py_mod seconds 1 * 1000)) = ?ms"
    using assms(1) by (rule fraction_eq) simp
  show ?thesis
    unfolding seconds_to_srt_time_def Let_def hours_eq [OF assms(1,2)] minutes_eq [OF assms(1)]
      secs_eq [OF assms(1)] ms_eq
    using h m s ms by (simp only: fmt_0d_two_digits fmt_0d_three_digits fmt_0d_hours)
qed

lemma ass_time_0: "seconds_to_ass_time 0 = ''0:00:00.00''"
  using ass_time_fields [of 0]
  by (simp add: b64_0 two_digits_def str_int_def str_nat_digit digit_char_def)

lemma srt_time_0: "seconds_to_srt_time 0 = ''00:00:00,000''"
  using srt_time_fields [of 0]
  by (simp add: b64_0 two_digits_def three_digits_def digit_char_def)

lemma ass_time_3725: "seconds_to_ass_time (b64 3725.456) = ''1:02:05.45''"
proof -
  let ?V = "2048091095383933 / 2 ^ 39 :: real"
  have rep: "b64 ?V = ?V" by (rule lit_3725_float)
  have nn: "0 \<le> ?V" by simp
  have lt: "?V < 2 ^ 53" by simp
  have fl: "\<lfloor>?V\<rfloor> = 3725" by (rule floor_3725)
  have cc: "\<lfloor>b64 ((?V - of_int 3725) * 100)\<rfloor> = 45" using centis_3725 by simp
  have "seconds_to_ass_time ?V =
          str_int (3725 div 3600) @ '':'' @ two_digits (3725 div 60 mod 60) @ '':''
            @ two_digits (3725 mod 60) @ ''.'' @ two_digits 45"
    using ass_time_fields [OF nn lt rep] unfolding fl cc .
  then show ?thesis
    unfolding lit_3725
    by (simp add: two_digits_def str_int_def str_nat_digit digit_char_def)
qed

lemma srt_time_3725: "seconds_to_srt_time (b64 3725.456) = ''01:02:05,456''"
proof -
  let ?V = "2048091095383933 / 2 ^ 39 :: real"
  have rep: "b64 ?V = ?V" by (rule lit_3725_float)
  have nn: "0 \<le> ?V" by simp
  have lt: "?V < 2 ^ 53" by simp
  have fl: "\<lfloor>?V\<rfloor> = 3725" by (rule floor_3725)
  have ms: "\<lfloor>b64 ((?V - of_int 3725) * 1000)\<rfloor> = 456" using millis_3725 by simp
  have "seconds_to_srt_time ?V =
          (if (3725::int) div 3600 < 10 then two_digits (3725 div 3600) else str_int (3725 div 3600))
            @ '':'' @ two_digits (3725 div 60 mod 60) @ '':''
            @ two_digits (3725 mod 60) @ '','' @ three_digits 456"
    using srt_time_fields [OF nn lt rep] unfolding fl ms .
  then show ?thesis
    unfolding lit_3725
    by (simp add: two_digits_def three_digits_def digit_char_def)
qed

lemma ass_time_003: "seconds_to_ass_time (1080863910568919 / 2 ^ 55) = ''0:00:00.03''"
proof -
  let ?V = "1080863910568919 / 2 ^ 55 :: real"
  have rep: "b64 ?V = ?V" by (rule lit_003_float)
  have nn: "0 \<le> ?V" by simp
  have lt: "?V < 2 ^ 53" by simp
  have fl: "\<lfloor>?V\<rfloor> = 0" by simp
  have cc: "\<lfloor>b64 ((?V - of_int 0) * 100)\<rfloor> = 3" using centis_003 by simp
  have "seconds_to_ass_time ?V =
          str_int (0 div 3600) @ '':'' @ two_digits (0 div 60 mod 60) @ '':''
            @ two_digits (0 mod 60) @ ''.'' @ two_digits 3"
    using ass_time_fields [OF nn lt rep] unfolding fl cc .
  then show ?thesis
    by (simp add: two_digits_def str_int_def str_nat_digit digit_char_def)
qed

lemma truncated_003: "\<lfloor>(1080863910568919 / 2 ^ 55 - of_int \<lfloor>1080863910568919 / 2 ^ 55 :: real\<rfloor>) * 100 :: real\<rfloor> = 2"
  by simp

text \<open>
  Claim C9 as stated: for every non-negative number of seconds the sub-second field is the
  fraction truncated to two digits. The float \<^verbatim>\<open>0.03\<close> is the number
  \<open>1080863910568919 / 2 ^ 55\<close>, just below three hundredths, so its truncated field is
  \<^verbatim>\<open>02\<close>; the binary64 product \<^verbatim>\<open>(seconds % 1) * 100\<close> rounds to 3 and the code prints
  \<^verbatim>\<open>03\<close>.
\<close>

theorem truncation_fails_at_float_003:
  "(0::real) \<le> 1080863910568919 / 2 ^ 55
   \<and> b64 (1080863910568919 / 2 ^ 55) = 1080863910568919 / 2 ^ 55
   \<and> seconds_to_ass_time (1080863910568919 / 2 ^ 55) = ''0:00:00.03''
   \<and> \<lfloor>(1080863910568919 / 2 ^ 55 - of_int \<lfloor>1080863910568919 / 2 ^ 55 :: real\<rfloor>) * 100 :: real\<rfloor> = 2
   \<and> seconds_to_ass_time (1080863910568919 / 2 ^ 55) \<noteq>
       str_int (\<lfloor>1080863910568919 / 2 ^ 55 :: real\<rfloor> div 3600) @ '':''
         @ two_digits (\<lfloor>1080863910568919 / 2 ^ 55 :: real\<rfloor> div 60 mod 60) @ '':''
         @ two_digits (\<lfloor>1080863910568919 / 2 ^ 55 :: real\<rfloor> mod 60) @ ''.''
         @ two_digits \<lfloor>(1080863910568919 / 2 ^ 55
                          - of_int \<lfloor>1080863910568919 / 2 ^ 55 :: real\<rfloor>) * 100 :: real\<rfloor>"
proof -
  let ?V = "1080863910568919 / 2 ^ 55 :: real"
  have fl: "\<lfloor>?V\<rfloor> = 0" by simp
  have tr: "\<lfloor>(?V - of_int \<lfloor>?V\<rfloor>) * 100\<rfloor> = 2" by (rule truncated_003)
  have "str_int (\<lfloor>?V\<rfloor> div 3600) @ '':'' @ two_digits (\<lfloor>?V\<rfloor> div 60 mod 60) @ '':''
          @ two_digits (\<lfloor>?V\<rfloor> mod 60) @ ''.'' @ two_digits \<lfloor>(?V - of_int \<lfloor>?V\<rfloor>) * 100\<rfloor>
        = ''0:00:00.02''"
    unfolding tr unfolding fl
    by (simp add: two_digits_def str_int_def str_nat_digit digit_char_def)
  moreover have "''0:00:00.03'' \<noteq> ''0:00:00.02''" by simp
  ultimately show ?thesis
    using ass_time_003 lit_003_float tr by simp
qed

text \<open>
  Claim C9, amended. For every non-negative binary64 number of seconds below \<open>2 ^ 53\<close>, both
  encodings are built from the hours, the minutes in 0..59 and the whole seconds in 0..59
  (these three add up to the whole seconds of the input), each zero-padded to two digits
  (the hours to one digit, to two in the SRT format), and from a sub-second field of two
  digits in the primary and three in the SRT format. That field is the integer part of the
  binary64 product of the fractional part with 100 or 1000: the truncated fraction, or one
  more when the product rounds up to the next integer. The float \<^verbatim>\<open>0\<close> is encoded as
  \<^verbatim>\<open>0:00:00.00\<close> and \<^verbatim>\<open>00:00:00,000\<close>, the float \<^verbatim>\<open>3725.456\<close> as \<^verbatim>\<open>1:02:05.45\<close> and
  \<^verbatim>\<open>01:02:05,456\<close>.
\<close>

theorem time_encoding_fields:
  assumes "0 \<le> seconds" and "seconds < 2 ^ 53" and "b64 seconds = seconds"
  shows "seconds_to_ass_time seconds =
           str_int (\<lfloor>seconds\<rfloor> div 3600) @ '':'' @ two_digits (\<lfloor>seconds\<rfloor> div 60 mod 60) @ '':''
             @ two_digits (\<lfloor>seconds\<rfloor> mod 60) @ ''.''
             @ two_digits \<lfloor>b64 ((seconds - of_int \<lfloor>seconds\<rfloor>) * 100)\<rfloor>
       \<and> seconds_to_srt_time seconds =
           (if \<lfloor>seconds\<rfloor> div 3600 < 10 then two_digits (\<lfloor>seconds\<rfloor> div 3600)
            else str_int (\<lfloor>seconds\<rfloor> div 3600))
             @ '':'' @ two_digits (\<lfloor>seconds\<rfloor> div 60 mod 60) @ '':''
             @ two_digits (\<lfloor>seconds\<rfloor> mod 60) @ '',''
             @ three_digits \<lfloor>b64 ((seconds - of_int \<lfloor>seconds\<rfloor>) * 1000)\<rfloor>
       \<and> 0 \<le> \<lfloor>seconds\<rfloor> div 3600
       \<and> 0 \<le> \<lfloor>seconds\<rfloor> div 60 mod 60 \<and> \<lfloor>seconds\<rfloor> div 60 mod 60 < 60
       \<and> 0 \<le> \<lfloor>seconds\<rfloor> mod 60 \<and> \<lfloor>seconds\<rfloor> mod 60 < 60
       \<and> 3600 * (\<lfloor>seconds\<rfloor> div 3600) + 60 * (\<lfloor>seconds\<rfloor> div 60 mod 60) + \<lfloor>seconds\<rfloor> mod 60
           = \<lfloor>seconds\<rfloor>
       \<and> \<lfloor>(seconds - of_int \<lfloor>seconds\<rfloor>) * 100\<rfloor> \<le> \<lfloor>b64 ((seconds - of_int \<lfloor>seconds\<rfloor>) * 100)\<rfloor>
       \<and> \<lfloor>b64 ((seconds - of_int \<lfloor>seconds\<rfloor>) * 100)\<rfloor> \<le> \<lfloor>(seconds - of_int \<lfloor>seconds\<rfloor>) * 100\<rfloor> + 1
       \<and> 0 \<le> \<lfloor>b64 ((seconds - of_int \<lfloor>seconds\<rfloor>) * 100)\<rfloor>
       \<and> \<lfloor>b64 ((seconds - of_int \<lfloor>seconds\<rfloor>) * 100)\<rfloor> < 100
       \<and> \<lfloor>(seconds - of_int \<lfloor>seconds\<rfloor>) * 1000\<rfloor> \<le> \<lfloor>b64 ((seconds - of_int \<lfloor>seconds\<rfloor>) * 1000)\<rfloor>
       \<and> \<lfloor>b64 ((seconds - of_int \<lfloor>seconds\<rfloor>) * 1000)\<rfloor> \<le> \<lfloor>(seconds - of_int \<lfloor>seconds\<rfloor>) * 1000\<rfloor> + 1
       \<and> 0 \<le> \<lfloor>b64 ((seconds - of_int \<lfloor>seconds\<rfloor>) * 1000)\<rfloor>
       \<and> \<lfloor>b64 ((seconds - of_int \<lfloor>seconds\<rfloor>) * 1000)\<rfloor> < 1000
       \<and> seconds_to_ass_time 0 = ''0:00:00.00''
       \<and> seconds_to_srt_time 0 = ''00:00:00,000''
       \<and> seconds_to_ass_time (b64 3725.456) = ''1:02:05.45''
       \<and> seconds_to_srt_time (b64 3725.456) = ''01:02:05,456''"
proof -
  let ?T = "\<lfloor>seconds\<rfloor>"
  let ?f = "seconds - of_int ?T"
  from assms(1) have "0 \<le> ?T" by simp
  then have h: "0 \<le> ?T div 3600" by (simp add: pos_imp_zdiv_nonneg_iff)
  have m: "0 \<le> ?T div 60 mod 60" "?T div 60 mod 60 < 60" by simp_all
  have s: "0 \<le> ?T mod 60" "?T mod 60 < 60" by simp_all
  have f: "0 \<le> ?f" "?f < 1" by linarith+
  from f have x100: "0 \<le> ?f * 100" "?f * 100 < 2 ^ 52" by simp_all
  from f have x1000: "0 \<le> ?f * 1000" "?f * 1000 < 2 ^ 52" by simp_all
  have n100: "0 \<le> \<lfloor>b64 (?f * 100)\<rfloor>" by (rule sub_second_nonneg) simp
  have n1000: "0 \<le> \<lfloor>b64 (?f * 1000)\<rfloor>" by (rule sub_second_nonneg) simp
  note cc = rounded_floor_bounds [OF x100] n100 sub_second_below(1) [OF assms(3,1)]
  note ms = rounded_floor_bounds [OF x1000] n1000 sub_second_below(2) [OF assms(3,1)]
  from ass_time_fields [OF assms] srt_time_fields [OF assms] h m s
    whole_seconds_split [of ?T] cc ms
    ass_time_0 srt_time_0 ass_time_3725 srt_time_3725
  show ?thesis by (intro conjI)
qed

theorem time_encoding_fields_witness:
  "(0::real) \<le> 7384.5 \<and> (7384.5::real) < 2 ^ 53 \<and> b64 7384.5 = 7384.5
   \<and> seconds_to_ass_time 7384.5 = ''2:03:04.50''
   \<and> seconds_to_srt_time 7384.5 = ''02:03:04,500''"
proof -
  have nn: "(0::real) \<le> 7384.5" by simp
  have lt: "(7384.5::real) < 2 ^ 53" by simp
  have rep: "b64 7384.5 = 7384.5"
    by (subst b64_eval [of 12 _ 8119343615311872]) (simp_all add: round_half_even_def)
  have fl: "\<lfloor>7384.5 :: real\<rfloor> = 7384" by simp
  have b50: "b64 50 = 50" using b64_of_int [of 50] by simp
  have b500: "b64 500 = 500" using b64_of_int [of 500] by simp
  have cc: "\<lfloor>b64 ((7384.5 - of_int 7384) * 100)\<rfloor> = 50" by (simp add: b50)
  have ms: "\<lfloor>b64 ((7384.5 - of_int 7384) * 1000)\<rfloor> = 500" by (simp add: b500)
  note fields = time_encoding_fields [OF nn lt rep, unfolded fl cc ms]
  from fields have "seconds_to_ass_time 7384.5 =
      str_int (7384 div 3600) @ '':'' @ two_digits (7384 div 60 mod 60) @ '':''
        @ two_digits (7384 mod 60) @ ''.'' @ two_digits 50"
    by (rule conjunct1)
  then have a: "seconds_to_ass_time 7384.5 = ''2:03:04.50''"
    by (simp add: two_digits_def digit_char_def str_int_def str_nat_digit)
  from fields have "seconds_to_srt_time 7384.5 =
      (if (7384::int) div 3600 < 10 then two_digits (7384 div 3600) else str_int (7384 div 3600))
        @ '':'' @ two_digits (7384 div 60 mod 60) @ '':''
        @ two_digits (7384 mod 60) @ '','' @ three_digits 500"
    by (rule conjunct1 [OF conjunct2])
  then have b: "seconds_to_srt_time 7384.5 = ''02:03:04,500''"
    by (simp add: two_digits_def three_digits_def digit_char_def)
  from nn lt rep a b show ?thesis by blast
qed

subsection \<open>Styled text\<close>

text \<open>
  Claim C10. For a segment whose \<^verbatim>\<open>words\<close> entry is empty or absent, and for every
  configuration, the styled text is the segment's \<^verbatim>\<open>display_text\<close> unchanged (the empty
  string when that entry is absent too): no highlight markup is applied.
\<close>

theorem create_styled_text_no_words:
  assumes "seg_words segment = None \<or> seg_words segment = Some []"
  shows "create_styled_text segment style =
         (case display_text segment of Some t \<Rightarrow> t | None \<Rightarrow> '''')"
  using assms by (auto simp: create_styled_text_def)

theorem create_styled_text_no_words_witness:
  "(seg_words \<lparr>seg_start = 0, seg_end = 1, seg_words = Some [], current_word_index = 0,
                current_word = '''', display_text = Some ''plain text''\<rparr> = None
    \<or> seg_words \<lparr>seg_start = 0, seg_end = 1, seg_words = Some [], current_word_index = 0,
                  current_word = '''', display_text = Some ''plain text''\<rparr> = Some [])
   \<and> create_styled_text
        \<lparr>seg_start = 0, seg_end = 1, seg_words = Some [], current_word_index = 0,
          current_word = '''', display_text = Some ''plain text''\<rparr>
        StyleConfig_defaults = ''plain text''"
  using create_styled_text_no_words
    [of "\<lparr>seg_start = 0, seg_end = 1, seg_words = Some [], current_word_index = 0,
           current_word = '''', display_text = Some ''plain text''\<rparr>" StyleConfig_defaults]
  by simp

subsection \<open>Lines and fields of the markup\<close>

lemma split_on_nonempty: "split_on c xs \<noteq> []"
  by (induction xs) simp_all

lemma split_on_append: "split_on c (xs @ c # ys) = split_on c xs @ split_on c ys"
proof (induction xs)
  case Nil
  show ?case by simp
next
  case (Cons x xs)
  have ne: "split_on c xs \<noteq> []" by (rule split_on_nonempty)
  show ?case
  proof (cases "x = c")
    case True
    with Cons show ?thesis by simp
  next
    case False
    with Cons ne show ?thesis by simp
  qed
qed

lemma split_on_notin: "c \<notin> set xs \<Longrightarrow> split_on c xs = [xs]"
  by (induction xs) auto


lemma text_lines_unlines_general:
  "text_lines (unlines ls @ rest) = concat (map text_lines ls) @ text_lines rest"
proof (induction ls)
  case Nil
  show ?case by (simp add: unlines_def)
next
  case (Cons l ls)
  have "unlines (l # ls) @ rest = l @ newline # (unlines ls @ rest)"
    by (simp add: unlines_def)
  with Cons show ?case
    by (simp add: text_lines_def split_on_append)
qed

lemma text_lines_one_line: "one_line l \<Longrightarrow> text_lines l = [l]"
  by (simp add: text_lines_def one_line_def split_on_notin)

lemma concat_text_lines: "list_all one_line ls \<Longrightarrow> concat (map text_lines ls) = ls"
  by (induction ls) (simp_all add: text_lines_one_line)

lemma text_lines_unlines:
  "list_all one_line ls \<Longrightarrow> text_lines (unlines ls @ rest) = ls @ text_lines rest"
  by (simp add: text_lines_unlines_general concat_text_lines)

lemma split_on_join:
  "ls \<noteq> [] \<Longrightarrow> list_all (\<lambda>l. c \<notin> set l) ls \<Longrightarrow> split_on c (join [c] ls) = ls"
proof (induction ls)
  case Nil
  then show ?case by simp
next
  case (Cons l ls)
  show ?case
  proof (cases ls)
    case Nil
    with Cons.prems show ?thesis by (simp add: split_on_notin)
  next
    case (Cons y ys)
    with Cons.IH Cons.prems have "split_on c (join [c] (y # ys)) = y # ys" by simp
    moreover have "join [c] (l # y # ys) = l @ c # join [c] (y # ys)" by simp
    moreover from Cons.prems have "split_on c l = [l]" by (simp add: split_on_notin)
    ultimately show ?thesis
      using Cons by (simp only: split_on_append append_Cons append_Nil)
  qed
qed

lemma set_join: "set (join sep ls) \<subseteq> set sep \<union> \<Union> (set ` set ls)"
  by (induction sep ls rule: join.induct) auto

lemma one_line_join:
  "one_line sep \<Longrightarrow> list_all one_line ls \<Longrightarrow> one_line (join sep ls)"
  using set_join [of sep ls] by (auto simp: one_line_def list_all_iff)

lemma one_line_append [simp]: "one_line (xs @ ys) \<longleftrightarrow> one_line xs \<and> one_line ys"
  by (auto simp: one_line_def)

lemma one_line_Cons [simp]: "one_line (x # xs) \<longleftrightarrow> x \<noteq> newline \<and> one_line xs"
  by (auto simp: one_line_def)

lemma one_line_Nil [simp]: "one_line []"
  by (simp add: one_line_def)

lemma digit_char_in: "d < 10 \<Longrightarrow> digit_char d \<in> set ''0123456789''"
proof -
  assume "d < 10"
  then have "d < length ''0123456789''" by simp
  then show ?thesis unfolding digit_char_def by (rule nth_mem)
qed

lemma str_nat_digits: "set (str_nat n) \<subseteq> set ''0123456789''"
proof -
  define D where "D = set ''0123456789''"
  have dc: "digit_char d \<in> D" if "d < 10" for d
    unfolding D_def using that by (rule digit_char_in)
  have "set (str_nat n) \<subseteq> D"
  proof (induction n rule: str_nat.induct)
    case (1 n)
    show ?case
    proof (cases "n < 10")
      case True
      then have "str_nat n = [digit_char n]" by (subst str_nat.simps) simp
      with dc [OF True] show ?thesis by simp
    next
      case False
      have "digit_char (n mod 10) \<in> D" by (rule dc) simp
      moreover from False have "str_nat n = str_nat (n div 10) @ [digit_char (n mod 10)]"
        by (subst str_nat.simps) simp
      moreover from False 1 have "set (str_nat (n div 10)) \<subseteq> D" by simp
      ultimately show ?thesis by simp
    qed
  qed
  then show ?thesis by (simp only: D_def)
qed

lemma digits_only:
  assumes "c \<notin> set ''-0123456789''"
  shows "c \<notin> set (str_nat n)" and "c \<notin> set (str_int i)" and "c \<notin> set (fmt_0d w i)"
proof -
  from assms have d: "c \<notin> set ''0123456789''" and m: "c \<noteq> CHR ''-''" and z: "c \<noteq> CHR ''0''"
    by simp_all
  from d str_nat_digits show n: "c \<notin> set (str_nat n)" for n by blast
  from n m show "c \<notin> set (str_int i)" by (simp add: str_int_def)
  from n m z show "c \<notin> set (fmt_0d w i)" by (simp add: fmt_0d_def zfill_def)
qed

lemma one_line_str_int [simp]: "one_line (str_int i)"
  unfolding one_line_def by (rule digits_only) (simp add: newline_def)

lemma one_line_fmt_0d [simp]: "one_line (fmt_0d w i)"
  unfolding one_line_def by (rule digits_only) (simp add: newline_def)

lemma no_comma_str_int [simp]: "CHR '','' \<notin> set (str_int i)"
  by (rule digits_only) simp

lemma plain_str_int [simp]: "plain (str_int i)"
  using one_line_str_int [of i] by (simp add: plain_def one_line_def)

lemma one_line_bs [simp]: "one_line (bs tag) \<longleftrightarrow> one_line tag"
  by (simp add: bs_def newline_def)

lemma header_lines_one_line:
  assumes "one_line_style style"
  shows "list_all one_line (header_lines font_size margin_side margin_bottom style)"
  using assms
  by (simp add: header_lines_def default_style_values_def highlight_style_values_def
      one_line_style_def one_line_join newline_def)

lemma empty_ass_file_lines_one_line:
  assumes "one_line_style style"
  shows "list_all one_line (empty_ass_file_lines font_size margin_bottom style)"
  using assms
  by (simp add: empty_ass_file_lines_def fallback_style_values_def one_line_style_def
      one_line_join newline_def)

lemma one_line_seconds_to_ass_time [simp]: "one_line (seconds_to_ass_time x)"
  by (simp add: seconds_to_ass_time_def Let_def newline_def)

lemma one_line_highlight_word:
  assumes "one_line_style style" and "one_line word"
  shows "one_line (highlight_word style word)"
  using assms
  by (simp add: highlight_word_def one_line_style_def Let_def newline_def)

lemma styled_parts_fold:
  "fold (\<lambda>(i, word) styled_parts.
           if i = 0 then styled_parts @ [highlight_word style word] else styled_parts @ [word])
        ps acc =
   acc @ map (\<lambda>(i, word). if i = (0::nat) then highlight_word style word else word) ps"
  by (induction ps arbitrary: acc) (auto split: prod.splits)

lemma styled_parts_eq:
  "fold (\<lambda>(i, word) styled_parts.
           if i = 0 then styled_parts @ [highlight_word style word] else styled_parts @ [word])
        ps [] =
   map (\<lambda>(i, word). if i = (0::nat) then highlight_word style word else word) ps"
  by (simp only: styled_parts_fold append_Nil)

lemma one_line_create_styled_text:
  assumes "one_line_style style" and "one_line_segment segment"
  shows "one_line (create_styled_text segment style)"
proof (cases "seg_words segment = None \<or> seg_words segment = Some []")
  case True
  with assms(2) show ?thesis
    by (auto simp: create_styled_text_def one_line_segment_def split: option.splits)
next
  case False
  then obtain ws where ws: "seg_words segment = Some ws" "ws \<noteq> []" by auto
  with assms(2) have all: "list_all one_line ws" by (simp add: one_line_segment_def)
  have "list_all one_line
          (map (\<lambda>(i, word). if i = 0 then highlight_word style word else word) (enumerate 0 ws))"
    using all one_line_highlight_word [OF assms(1)]
    by (auto simp: list_all_iff in_set_enumerate_eq)
  then have "one_line (join '' ''
          (map (\<lambda>(i, word). if i = 0 then highlight_word style word else word) (enumerate 0 ws)))"
    by (intro one_line_join) (simp_all add: newline_def)
  with ws show ?thesis
    by (simp add: create_styled_text_def styled_parts_eq)
qed

lemma one_line_dialogue_line:
  assumes "one_line_style style" and "one_line_segment segment"
  shows "one_line (dialogue_line style segment)"
  using one_line_create_styled_text [OF assms]
  by (simp add: dialogue_line_def Let_def newline_def)

lemma dialogue_line_prefix:
  "startswith (dialogue_line style segment) ''Dialogue: ''"
  "\<not> startswith (dialogue_line style segment) ''Style: ''"
  by (simp_all add: dialogue_line_def Let_def startswith_def)

lemma dialogue_lines_eq:
  "fold (\<lambda>segment dialogue_lines. dialogue_lines @ [dialogue_line style segment]) segments [] =
   map (dialogue_line style) segments"
  by (simp only: fold_append_map append_Nil)

lemma generate_ass_content_eq:
  "generate_ass_content segments width height style =
     unlines (header_lines (max (py_int (b64 (float_of_int height * font_size_ratio style))) 16) 20
                (max (py_int (b64 (float_of_int height * margin_ratio style))) 20) style)
     @ join [newline] (map (dialogue_line style) segments)"
  by (simp only: generate_ass_content_def Let_def generate_header_def dialogue_lines_eq)

lemma text_lines_generate_ass_content:
  assumes "one_line_style style" and "list_all one_line_segment segments" and "segments \<noteq> []"
  shows "text_lines (generate_ass_content segments width height style) =
     header_lines (max (py_int (b64 (float_of_int height * font_size_ratio style))) 16) 20
       (max (py_int (b64 (float_of_int height * margin_ratio style))) 20) style
     @ map (dialogue_line style) segments"
proof -
  from assms(1,2) have "list_all (\<lambda>l. newline \<notin> set l) (map (dialogue_line style) segments)"
    using one_line_dialogue_line [of style]
    by (auto simp: list_all_iff one_line_def)
  moreover from assms(3) have "map (dialogue_line style) segments \<noteq> []" by simp
  ultimately have "text_lines (join [newline] (map (dialogue_line style) segments)) =
                   map (dialogue_line style) segments"
    unfolding text_lines_def by (intro split_on_join)
  with header_lines_one_line [OF assms(1)] show ?thesis
    by (simp only: generate_ass_content_eq text_lines_unlines)
qed

lemma text_lines_header_prefix:
  assumes "one_line_style style"
  shows "text_lines (generate_ass_content segments width height style) =
     header_lines (max (py_int (b64 (float_of_int height * font_size_ratio style))) 16) 20
       (max (py_int (b64 (float_of_int height * margin_ratio style))) 20) style
     @ text_lines (join [newline] (map (dialogue_line style) segments))"
  using header_lines_one_line [OF assms]
  by (simp only: generate_ass_content_eq text_lines_unlines)

lemma text_lines_generate_empty_ass_file:
  assumes "one_line_style style"
  shows "text_lines (generate_empty_ass_file style width height) =
     empty_ass_file_lines (max (py_int (b64 (float_of_int height * font_size_ratio style))) 16)
       (max (py_int (b64 (float_of_int height * margin_ratio style))) 20) style @ ['''']"
proof -
  have "text_lines (unlines ls @ []) = ls @ ['''']" if "list_all one_line ls" for ls
    using that by (simp only: text_lines_unlines) (simp add: text_lines_def)
  from this [OF empty_ass_file_lines_one_line [OF assms]] show ?thesis
    by (simp add: generate_empty_ass_file_def Let_def)
qed

lemma plain_one_line_style: "plain_style style \<Longrightarrow> one_line_style style"
  by (simp add: plain_style_def one_line_style_def plain_def one_line_def)

lemma record_fields_style_line: "record_fields (''Style: '' @ vals) = split_on CHR '','' vals"
  by (simp add: record_fields_def)

lemma record_fields_join:
  assumes "vals \<noteq> []" and "list_all (\<lambda>v. CHR '','' \<notin> set v) vals"
  shows "record_fields (''Style: '' @ join '','' vals) = vals"
  unfolding record_fields_style_line using assms by (rule split_on_join)

lemma record_name_style_line:
  assumes "CHR '','' \<notin> set name"
  shows "record_name (''Style: '' @ join '','' (name # val # vals)) = name"
proof -
  have "join '','' (name # val # vals) = name @ CHR '','' # join '','' (val # vals)"
    by simp
  then have "split_on CHR '','' (join '','' (name # val # vals)) =
             split_on CHR '','' name @ split_on CHR '','' (join '','' (val # vals))"
    by (simp only: split_on_append)
  also from assms have "split_on CHR '','' name = [name]" by (rule split_on_notin)
  finally show ?thesis
    unfolding record_name_def record_fields_style_line by simp
qed

lemma filter_dialogue_lines:
  "filter (\<lambda>l. startswith l ''Dialogue: '') (map (dialogue_line style) segments) =
     map (dialogue_line style) segments"
  "filter (\<lambda>l. startswith l ''Style: '') (map (dialogue_line style) segments) = []"
  by (induction segments) (simp_all add: dialogue_line_prefix)

lemma startswith_style_line: "startswith (''Style: '' @ vals) ''Style: ''"
  by (simp add: startswith_def)

lemma not_dialogue_style_line: "\<not> startswith (''Style: '' @ vals) ''Dialogue: ''"
  by (simp add: startswith_def)

lemma header_line_6:
  "header_lines font_size margin_side margin_bottom style ! 6 =
     ''Style: '' @ join '','' (default_style_values font_size margin_side margin_bottom style)"
  by (simp add: header_lines_def)

lemma header_line_7:
  "header_lines font_size margin_side margin_bottom style ! 7 =
     ''Style: '' @ join '','' (highlight_style_values font_size margin_side margin_bottom style)"
  by (simp add: header_lines_def)

lemma fallback_line_6:
  "empty_ass_file_lines font_size margin_bottom style ! 6 =
     ''Style: '' @ join '','' (fallback_style_values font_size margin_bottom style)"
  by (simp add: empty_ass_file_lines_def)

lemma length_header_lines: "length (header_lines font_size margin_side margin_bottom style) = 11"
  by (simp add: header_lines_def)

lemma length_empty_ass_file_lines: "length (empty_ass_file_lines font_size margin_bottom style) = 11"
  by (simp add: empty_ass_file_lines_def)

lemma header_style_records:
  "filter (\<lambda>l. startswith l ''Style: '') (header_lines font_size margin_side margin_bottom style) =
     [header_lines font_size margin_side margin_bottom style ! 6,
      header_lines font_size margin_side margin_bottom style ! 7]"
  unfolding header_line_6 header_line_7
  by (simp add: header_lines_def startswith_def)

lemma header_event_lines:
  "filter (\<lambda>l. startswith l ''Dialogue: '') (header_lines font_size margin_side margin_bottom style) = []"
  by (simp add: header_lines_def startswith_def)

lemma header_record_names:
  "record_name (header_lines font_size margin_side margin_bottom style ! 6) = ''Default''"
  "record_name (header_lines font_size margin_side margin_bottom style ! 7) = ''Highlight''"
  unfolding header_line_6 header_line_7 default_style_values_def highlight_style_values_def
  by (rule record_name_style_line, simp)+

lemma empty_file_style_records:
  "filter (\<lambda>l. startswith l ''Style: '') (empty_ass_file_lines font_size margin_bottom style @ ['''']) =
     [empty_ass_file_lines font_size margin_bottom style ! 6]"
  unfolding fallback_line_6
  by (simp add: empty_ass_file_lines_def startswith_def)

lemma empty_file_event_lines:
  "filter (\<lambda>l. startswith l ''Dialogue: '') (empty_ass_file_lines font_size margin_bottom style @ ['''']) =
     [placeholder_event]"
  by (simp add: empty_ass_file_lines_def startswith_def placeholder_event_def)

lemma empty_file_record_name:
  "record_name (empty_ass_file_lines font_size margin_bottom style ! 6) = ''Default''"
  unfolding fallback_line_6 fallback_style_values_def
  by (rule record_name_style_line) simp

subsection \<open>Structure of the compiled markup\<close>

lemma one_line_style_defaults: "one_line_style StyleConfig_defaults"
  by (simp add: one_line_style_def StyleConfig_defaults_def newline_def)

lemma ass_content_Nil: "ass_content [] width height style = generate_empty_ass_file style width height"
  by (simp add: ass_content_def)

lemma ass_content_nonempty:
  "segments \<noteq> [] \<Longrightarrow>
   ass_content segments width height style = generate_ass_content segments width height style"
  by (simp add: ass_content_def)

lemma style_records_fallback:
  assumes "one_line_style style"
  shows "map record_name (style_records (ass_content [] width height style)) = [''Default'']"
    and "event_lines (ass_content [] width height style) = [placeholder_event]"
proof -
  note tl = text_lines_generate_empty_ass_file [OF assms, of width height]
  show "map record_name (style_records (ass_content [] width height style)) = [''Default'']"
    by (simp only: ass_content_Nil style_records_def tl empty_file_style_records list.map
        empty_file_record_name)
  show "event_lines (ass_content [] width height style) = [placeholder_event]"
    by (simp only: ass_content_Nil event_lines_def tl empty_file_event_lines)
qed

lemma style_records_content:
  assumes "one_line_style style" and "list_all one_line_segment segments" and "segments \<noteq> []"
  shows "map record_name (style_records (ass_content segments width height style)) =
           [''Default'', ''Highlight'']"
    and "event_lines (ass_content segments width height style) =
           map (dialogue_line style) segments"
proof -
  note tl = text_lines_generate_ass_content [OF assms, of width height]
  show "map record_name (style_records (ass_content segments width height style)) =
           [''Default'', ''Highlight'']"
    by (simp only: ass_content_nonempty [OF assms(3)] style_records_def tl filter_append
        header_style_records filter_dialogue_lines append_Nil2 list.map header_record_names)
  show "event_lines (ass_content segments width height style) =
           map (dialogue_line style) segments"
    by (simp only: ass_content_nonempty [OF assms(3)] event_lines_def tl filter_append
        header_event_lines filter_dialogue_lines append_Nil)
qed

text \<open>
  Claim C3 as stated, for the empty segment sequence: the compiled text would have the two
  style records \<^verbatim>\<open>Default\<close> and \<^verbatim>\<open>Highlight\<close> and no event line. The fallback file has the
  single record \<^verbatim>\<open>Default\<close> and one event line.
\<close>

theorem empty_sequence_has_one_style_record:
  "map record_name (style_records (ass_content [] 1920 1080 StyleConfig_defaults)) = [''Default'']
   \<and> length (event_lines (ass_content [] 1920 1080 StyleConfig_defaults)) = 1
   \<and> \<not> (map record_name (style_records (ass_content [] 1920 1080 StyleConfig_defaults)) =
            [''Default'', ''Highlight'']
          \<and> length (event_lines (ass_content [] 1920 1080 StyleConfig_defaults)) =
            length ([] :: segment list))"
  by (simp add: style_records_fallback [OF one_line_style_defaults])

text \<open>
  Claim C3, amended. For every non-empty sequence of segments whose words contain no line
  break, every configuration whose font family and colours contain no line break, and all
  video dimensions, the compiled text consists of the header lines, with exactly the two
  style records \<^verbatim>\<open>Default\<close> and \<^verbatim>\<open>Highlight\<close>, followed by one event line per segment, in
  order. For the empty sequence the text has the single style record \<^verbatim>\<open>Default\<close> and the
  single placeholder event line.
\<close>

theorem compiled_markup_structure:
  assumes "one_line_style style" and "list_all one_line_segment segments"
  shows "(segments \<noteq> [] \<longrightarrow>
            text_lines (ass_content segments width height style) =
              header_lines (max (py_int (b64 (float_of_int height * font_size_ratio style))) 16) 20
                (max (py_int (b64 (float_of_int height * margin_ratio style))) 20) style
              @ map (dialogue_line style) segments
          \<and> map record_name (style_records (ass_content segments width height style)) =
              [''Default'', ''Highlight'']
          \<and> event_lines (ass_content segments width height style) =
              map (dialogue_line style) segments
          \<and> length (event_lines (ass_content segments width height style)) = length segments)
       \<and> (segments = [] \<longrightarrow>
            map record_name (style_records (ass_content segments width height style)) = [''Default'']
          \<and> event_lines (ass_content segments width height style) = [placeholder_event])"
proof (cases "segments = []")
  case True
  with style_records_fallback [OF assms(1), of width height] show ?thesis by simp
next
  case False
  from text_lines_generate_ass_content [OF assms False, of width height]
  have "text_lines (ass_content segments width height style) =
          header_lines (max (py_int (b64 (float_of_int height * font_size_ratio style))) 16) 20
            (max (py_int (b64 (float_of_int height * margin_ratio style))) 20) style
          @ map (dialogue_line style) segments"
    by (simp only: ass_content_nonempty [OF False])
  with style_records_content [OF assms False, of width height] False show ?thesis by simp
qed

theorem compiled_markup_structure_witness:
  "one_line_style StyleConfig_defaults
   \<and> list_all one_line_segment
        [\<lparr>seg_start = 0, seg_end = 1, seg_words = Some [''hello'', ''there''],
          current_word_index = 0, current_word = ''hello'', display_text = Some ''hello there''\<rparr>]
   \<and> map record_name (style_records (ass_content
        [\<lparr>seg_start = 0, seg_end = 1, seg_words = Some [''hello'', ''there''],
          current_word_index = 0, current_word = ''hello'', display_text = Some ''hello there''\<rparr>]
        1920 1080 StyleConfig_defaults)) = [''Default'', ''Highlight'']
   \<and> length (event_lines (ass_content
        [\<lparr>seg_start = 0, seg_end = 1, seg_words = Some [''hello'', ''there''],
          current_word_index = 0, current_word = ''hello'', display_text = Some ''hello there''\<rparr>]
        1920 1080 StyleConfig_defaults)) = 1"
proof -
  have segs: "list_all one_line_segment
        [\<lparr>seg_start = 0, seg_end = 1, seg_words = Some [''hello'', ''there''],
          current_word_index = 0, current_word = ''hello'', display_text = Some ''hello there''\<rparr>]"
    by (simp add: one_line_segment_def newline_def)
  from compiled_markup_structure [OF one_line_style_defaults segs, of 1920 1080]
    one_line_style_defaults segs
  show ?thesis by simp
qed

subsection \<open>Empty input\<close>










subsection \<open>Font size and margins of the header\<close>

lemma no_comma_literals:
  "CHR '','' \<notin> set ''Default''" "CHR '','' \<notin> set ''Highlight''"
  by simp_all

lemma plain_values:
  assumes "plain_style style"
  shows "list_all (\<lambda>v. CHR '','' \<notin> set v)
           (default_style_values font_size margin_side margin_bottom style)"
    and "list_all (\<lambda>v. CHR '','' \<notin> set v)
           (highlight_style_values font_size margin_side margin_bottom style)"
    and "list_all (\<lambda>v. CHR '','' \<notin> set v) (fallback_style_values font_size margin_bottom style)"
  using assms
  by (simp_all add: default_style_values_def highlight_style_values_def
      fallback_style_values_def plain_style_def plain_def)

lemma str_int_20: "str_int 20 = ''20''"
  by (simp add: str_int_def str_nat_two digit_char_def)

lemma values_nth:
  "default_style_values font_size 20 margin_bottom style ! 2 = str_int font_size"
  "default_style_values font_size 20 margin_bottom style ! 19 = ''20''"
  "default_style_values font_size 20 margin_bottom style ! 20 = ''20''"
  "default_style_values font_size 20 margin_bottom style ! 21 = str_int margin_bottom"
  "highlight_style_values font_size 20 margin_bottom style ! 2 = str_int font_size"
  "highlight_style_values font_size 20 margin_bottom style ! 19 = ''20''"
  "highlight_style_values font_size 20 margin_bottom style ! 20 = ''20''"
  "highlight_style_values font_size 20 margin_bottom style ! 21 = str_int margin_bottom"
  "fallback_style_values font_size margin_bottom style ! 2 = str_int font_size"
  "fallback_style_values font_size margin_bottom style ! 19 = ''20''"
  "fallback_style_values font_size margin_bottom style ! 20 = ''20''"
  "fallback_style_values font_size margin_bottom style ! 21 = str_int margin_bottom"
  by (simp_all add: default_style_values_def highlight_style_values_def
      fallback_style_values_def str_int_20)

lemma values_nonempty:
  "default_style_values font_size margin_side margin_bottom style \<noteq> []"
  "highlight_style_values font_size margin_side margin_bottom style \<noteq> []"
  "fallback_style_values font_size margin_bottom style \<noteq> []"
  by (simp_all add: default_style_values_def highlight_style_values_def
      fallback_style_values_def)

lemma header_record_fields:
  assumes "plain_style style"
  shows "record_fields (header_lines font_size margin_side margin_bottom style ! 6) =
           default_style_values font_size margin_side margin_bottom style"
    and "record_fields (header_lines font_size margin_side margin_bottom style ! 7) =
           highlight_style_values font_size margin_side margin_bottom style"
    and "record_fields (empty_ass_file_lines font_size margin_bottom style ! 6) =
           fallback_style_values font_size margin_bottom style"
  unfolding header_line_6 header_line_7 fallback_line_6
  by (rule record_fields_join, rule values_nonempty, rule plain_values [OF assms])+

lemma content_line_6_7:
  assumes "one_line_style style" and "segments \<noteq> []"
  shows "text_lines (ass_content segments width height style) ! 6 =
           header_lines (max (py_int (b64 (float_of_int height * font_size_ratio style))) 16) 20
             (max (py_int (b64 (float_of_int height * margin_ratio style))) 20) style ! 6"
    and "text_lines (ass_content segments width height style) ! 7 =
           header_lines (max (py_int (b64 (float_of_int height * font_size_ratio style))) 16) 20
             (max (py_int (b64 (float_of_int height * margin_ratio style))) 20) style ! 7"
  by (simp_all add: ass_content_nonempty [OF assms(2)] text_lines_header_prefix [OF assms(1)]
      nth_append length_header_lines)

lemma fallback_line_6_of_text:
  assumes "one_line_style style"
  shows "text_lines (ass_content [] width height style) ! 6 =
           empty_ass_file_lines (max (py_int (b64 (float_of_int height * font_size_ratio style))) 16)
             (max (py_int (b64 (float_of_int height * margin_ratio style))) 20) style ! 6"
  by (simp add: ass_content_Nil text_lines_generate_empty_ass_file [OF assms] nth_append
      length_empty_ass_file_lines)

lemma default_record_of_text:
  assumes "plain_style style"
  shows "record_name (text_lines (ass_content segments width height style) ! 6) = ''Default''"
    and "record_fields (text_lines (ass_content segments width height style) ! 6) ! 2 =
           str_int (max (py_int (b64 (float_of_int height * font_size_ratio style))) 16)"
    and "record_fields (text_lines (ass_content segments width height style) ! 6) ! 19 = ''20''"
    and "record_fields (text_lines (ass_content segments width height style) ! 6) ! 20 = ''20''"
    and "record_fields (text_lines (ass_content segments width height style) ! 6) ! 21 =
           str_int (max (py_int (b64 (float_of_int height * margin_ratio style))) 20)"
proof -
  note ol = plain_one_line_style [OF assms]
  have "record_name (text_lines (ass_content segments width height style) ! 6) = ''Default''
      \<and> record_fields (text_lines (ass_content segments width height style) ! 6) ! 2 =
           str_int (max (py_int (b64 (float_of_int height * font_size_ratio style))) 16)
      \<and> record_fields (text_lines (ass_content segments width height style) ! 6) ! 19 = ''20''
      \<and> record_fields (text_lines (ass_content segments width height style) ! 6) ! 20 = ''20''
      \<and> record_fields (text_lines (ass_content segments width height style) ! 6) ! 21 =
           str_int (max (py_int (b64 (float_of_int height * margin_ratio style))) 20)"
  proof (cases "segments = []")
    case True
    show ?thesis
      unfolding True fallback_line_6_of_text [OF ol] header_record_fields(3) [OF assms]
      by (simp only: empty_file_record_name values_nth simp_thms)
  next
    case False
    show ?thesis
      unfolding content_line_6_7(1) [OF ol False] header_record_fields(1) [OF assms]
      by (simp only: header_record_names values_nth simp_thms)
  qed
  then show "record_name (text_lines (ass_content segments width height style) ! 6) = ''Default''"
    and "record_fields (text_lines (ass_content segments width height style) ! 6) ! 2 =
           str_int (max (py_int (b64 (float_of_int height * font_size_ratio style))) 16)"
    and "record_fields (text_lines (ass_content segments width height style) ! 6) ! 19 = ''20''"
    and "record_fields (text_lines (ass_content segments width height style) ! 6) ! 20 = ''20''"
    and "record_fields (text_lines (ass_content segments width height style) ! 6) ! 21 =
           str_int (max (py_int (b64 (float_of_int height * margin_ratio style))) 20)"
    by blast+
qed

lemma highlight_record_of_text:
  assumes "plain_style style" and "segments \<noteq> []"
  shows "record_name (text_lines (ass_content segments width height style) ! 7) = ''Highlight''
      \<and> record_fields (text_lines (ass_content segments width height style) ! 7) ! 2 =
           str_int (max (py_int (b64 (float_of_int height * font_size_ratio style))) 16)
      \<and> record_fields (text_lines (ass_content segments width height style) ! 7) ! 19 = ''20''
      \<and> record_fields (text_lines (ass_content segments width height style) ! 7) ! 20 = ''20''
      \<and> record_fields (text_lines (ass_content segments width height style) ! 7) ! 21 =
           str_int (max (py_int (b64 (float_of_int height * margin_ratio style))) 20)"
  unfolding content_line_6_7(2) [OF plain_one_line_style [OF assms(1)] assms(2)]
    header_record_fields(2) [OF assms(1)]
  by (simp only: header_record_names values_nth simp_thms)

lemma plain_style_defaults: "plain_style StyleConfig_defaults"
  by (simp add: plain_style_def plain_def StyleConfig_defaults_def newline_def)

lemma float_1080: "float_of_int 1080 = 1080"
  using b64_of_int [of 1080] by (simp add: float_of_int_def)

lemma lit_0045: "b64 0.045 = 3242591731706757 / 2 ^ 56"
  by (subst b64_eval [of "- 5" _ 6485183463413514]) (simp_all add: round_half_even_def)

lemma lit_005: "b64 0.05 = 3602879701896397 / 2 ^ 56"
  by (subst b64_eval [of "- 5" _ 7205759403792794]) (simp_all add: round_half_even_def)

lemma lit_008: "b64 0.08 = 5764607523034235 / 2 ^ 56"
  by (subst b64_eval [of "- 4" _ 5764607523034235]) (simp_all add: round_half_even_def)

lemma size_1080_0045: "py_int (b64 (1080 * (3242591731706757 / 2 ^ 56))) = 48"
  by (subst b64_eval [of 5 _ 6839841934068941]) (simp_all add: round_half_even_def py_int_def)

lemma size_1080_005: "py_int (b64 (1080 * (3602879701896397 / 2 ^ 56))) = 54"
  by (subst b64_eval [of 5 _ 7599824371187712]) (simp_all add: round_half_even_def py_int_def)

lemma margin_1080_008: "py_int (b64 (1080 * (5764607523034235 / 2 ^ 56))) = 86"
  by (subst b64_eval [of 6 _ 6079859496950170]) (simp_all add: round_half_even_def py_int_def)

lemma round_1080_0045: "round (1080 * (3242591731706757 / 2 ^ 56) :: real) = 49"
  by (simp add: round_def)

lemma str_int_two_digit:
  "str_int 48 = ''48''" "str_int 49 = ''49''" "str_int 54 = ''54''" "str_int 86 = ''86''"
  by (simp_all add: str_int_def str_nat_two digit_char_def)

text \<open>
  Claim C4 as stated: the font size is \<open>max (round (height * ratio)) 16\<close>. For a video of
  height 1080 and the font size ratio \<^verbatim>\<open>0.045\<close> of the preset \<^verbatim>\<open>youtube_professional\<close> the
  product is about 48.6: rounding gives 49, and the header carries 48, since the code
  converts with \<^verbatim>\<open>int\<close>.
\<close>

theorem font_size_is_truncated_not_rounded:
  "font_size_ratio (snd (presets ! 2)) = b64 0.045
   \<and> plain_style (snd (presets ! 2))
   \<and> record_name (text_lines (ass_content [] 1920 1080 (snd (presets ! 2))) ! 6) = ''Default''
   \<and> record_fields (text_lines (ass_content [] 1920 1080 (snd (presets ! 2))) ! 6) ! 2 = ''48''
   \<and> str_int (max (round (of_int 1080 * font_size_ratio (snd (presets ! 2)))) 16) = ''49''
   \<and> record_fields (text_lines (ass_content [] 1920 1080 (snd (presets ! 2))) ! 6) ! 2 \<noteq>
       str_int (max (round (of_int 1080 * font_size_ratio (snd (presets ! 2)))) 16)"
proof -
  let ?style = "snd (presets ! 2)"
  have ratio: "font_size_ratio ?style = b64 0.045"
    by (simp add: presets_def)
  have plain: "plain_style ?style"
    by (simp add: presets_def plain_style_def plain_def StyleConfig_defaults_def newline_def)
  have size: "max (py_int (b64 (float_of_int 1080 * font_size_ratio ?style))) 16 = 48"
    unfolding ratio lit_0045 float_1080 size_1080_0045 by simp
  have field: "record_fields (text_lines (ass_content [] 1920 1080 ?style) ! 6) ! 2 = ''48''"
    unfolding default_record_of_text(2) [OF plain] size by (rule str_int_two_digit)
  have "max (round (of_int 1080 * font_size_ratio ?style)) 16 = 49"
    unfolding ratio lit_0045 using round_1080_0045 by simp
  then have claimed: "str_int (max (round (of_int 1080 * font_size_ratio ?style)) 16) = ''49''"
    by (simp only: str_int_two_digit)
  have "''48'' \<noteq> ''49''" by simp
  with field claimed have
    "record_fields (text_lines (ass_content [] 1920 1080 ?style) ! 6) ! 2 \<noteq>
       str_int (max (round (of_int 1080 * font_size_ratio ?style)) 16)"
    by simp
  with ratio plain default_record_of_text(1) [OF plain] field claimed show ?thesis
    by (intro conjI)
qed

text \<open>
  Claim C4, amended. For every video height and every configuration whose font family and
  colours contain no comma or line break, each style record of the compiled header carries
  the font size \<open>max (int (height * font_size_ratio)) 16\<close> and the vertical margin
  \<open>max (int (height * margin_ratio)) 20\<close>, where \<^verbatim>\<open>int\<close> truncates the binary64 product
  toward zero, and the left and right margins 20. The \<^verbatim>\<open>Default\<close> record is line 6 of the
  text; the \<^verbatim>\<open>Highlight\<close> record, present for a non-empty segment sequence, is line 7.
\<close>

theorem header_font_size_and_margins:
  assumes "plain_style style"
  shows "record_name (text_lines (ass_content segments width height style) ! 6) = ''Default''
      \<and> record_fields (text_lines (ass_content segments width height style) ! 6) ! 2 =
           str_int (max (py_int (b64 (float_of_int height * font_size_ratio style))) 16)
      \<and> record_fields (text_lines (ass_content segments width height style) ! 6) ! 19 = ''20''
      \<and> record_fields (text_lines (ass_content segments width height style) ! 6) ! 20 = ''20''
      \<and> record_fields (text_lines (ass_content segments width height style) ! 6) ! 21 =
           str_int (max (py_int (b64 (float_of_int height * margin_ratio style))) 20)
      \<and> (segments \<noteq> [] \<longrightarrow>
           record_name (text_lines (ass_content segments width height style) ! 7) = ''Highlight''
         \<and> record_fields (text_lines (ass_content segments width height style) ! 7) ! 2 =
             str_int (max (py_int (b64 (float_of_int height * font_size_ratio style))) 16)
         \<and> record_fields (text_lines (ass_content segments width height style) ! 7) ! 19 = ''20''
         \<and> record_fields (text_lines (ass_content segments width height style) ! 7) ! 20 = ''20''
         \<and> record_fields (text_lines (ass_content segments width height style) ! 7) ! 21 =
             str_int (max (py_int (b64 (float_of_int height * margin_ratio style))) 20))"
  using default_record_of_text [OF assms, of segments width height]
    highlight_record_of_text [OF assms, of segments width height]
  by blast

theorem header_font_size_and_margins_witness:
  "plain_style StyleConfig_defaults
   \<and> record_name (text_lines (ass_content [] 1920 1080 StyleConfig_defaults) ! 6) = ''Default''
   \<and> record_fields (text_lines (ass_content [] 1920 1080 StyleConfig_defaults) ! 6) ! 2 = ''54''
   \<and> record_fields (text_lines (ass_content [] 1920 1080 StyleConfig_defaults) ! 6) ! 19 = ''20''
   \<and> record_fields (text_lines (ass_content [] 1920 1080 StyleConfig_defaults) ! 6) ! 20 = ''20''
   \<and> record_fields (text_lines (ass_content [] 1920 1080 StyleConfig_defaults) ! 6) ! 21 = ''86''"
proof -
  have fr: "font_size_ratio StyleConfig_defaults = b64 0.05"
    and mr: "margin_ratio StyleConfig_defaults = b64 0.08"
    by (simp_all add: StyleConfig_defaults_def)
  have size: "max (py_int (b64 (float_of_int 1080 * font_size_ratio StyleConfig_defaults))) 16 = 54"
    unfolding fr lit_005 float_1080 size_1080_005 by simp
  have margin: "max (py_int (b64 (float_of_int 1080 * margin_ratio StyleConfig_defaults))) 20 = 86"
    unfolding mr lit_008 float_1080 margin_1080_008 by simp
  from header_font_size_and_margins [OF plain_style_defaults, of "[]" 1920 1080]
    plain_style_defaults
  show ?thesis
    unfolding size margin str_int_two_digit by blast
qed


end
